theory Spec2Isabelle
  imports Main "HOL-Library.Code_Target_Nat"
begin

section \<open>JavaScript values and the coercions the handlers perform\<close>

text \<open>
  The values that flow through \<^verbatim>\<open>checkSubscription\<close> and the handlers are what a
  Firestore document field or a parsed JSON body can hold: \<^verbatim>\<open>undefined\<close> (a field that
  is not there), \<^verbatim>\<open>null\<close>, booleans, numbers, strings, Firestore timestamps and plain
  objects. A number value is an integer (\<open>JNum n\<close>, the double whose value is \<open>n\<close>) or
  \<^verbatim>\<open>NaN\<close>; number values with a fraction, the infinities and arrays are outside the
  value universe. A character stands for the UTF-16 code unit of the same number.
\<close>

datatype jsval =
    JUndefined
  | JNull
  | JBool bool
  | JNum int
  | JNaN
  | JStr string
  | JTimestamp int
  | JObj "(string \<times> jsval) list"

text \<open>ToBoolean, as used by \<^verbatim>\<open>!x\<close>, \<^verbatim>\<open>x && y\<close> and \<^verbatim>\<open>x || y\<close>.\<close>

fun truthy :: "jsval \<Rightarrow> bool" where
  "truthy JUndefined = False"
| "truthy JNull = False"
| "truthy (JBool b) = b"
| "truthy (JNum n) = (n \<noteq> 0)"
| "truthy JNaN = False"
| "truthy (JStr s) = (s \<noteq> [])"
| "truthy (JTimestamp t) = True"
| "truthy (JObj kvs) = True"

subsection \<open>String methods\<close>

text \<open>\<^verbatim>\<open>s.includes(sub)\<close>: \<open>sub\<close> occurs in \<open>s\<close> as a contiguous substring.\<close>

fun includes_str :: "string \<Rightarrow> string \<Rightarrow> bool" where
  "includes_str [] sub = (sub = [])"
| "includes_str (c # cs) sub = (take (length sub) (c # cs) = sub \<or> includes_str cs sub)"

text \<open>\<^verbatim>\<open>s.split(sep)\<close> for a non-empty separator; \<open>cur\<close> is the piece being read.\<close>

function split_on :: "string \<Rightarrow> string \<Rightarrow> string \<Rightarrow> string list" where
  "split_on sep cur [] = [cur]"
| "split_on sep cur (c # cs) =
     (if sep \<noteq> [] \<and> take (length sep) (c # cs) = sep
      then cur # split_on sep [] (drop (length sep) (c # cs))
      else split_on sep (cur @ [c]) cs)"
  by pat_completeness auto
termination
  by (relation "measure (\<lambda>(sep, cur, rest). length rest)") auto

text \<open>\<^verbatim>\<open>toLowerCase\<close> on the letters A to Z; it is applied to the two event names only.\<close>

definition lower_char :: "char \<Rightarrow> char" where
  "lower_char c =
     (case map_of (zip ''ABCDEFGHIJKLMNOPQRSTUVWXYZ'' ''abcdefghijklmnopqrstuvwxyz'') c of
        None \<Rightarrow> c
      | Some l \<Rightarrow> l)"

definition toLowerCase :: "string \<Rightarrow> string" where
  "toLowerCase s = map lower_char s"

subsection \<open>Doubles\<close>

text \<open>
  A double has 53 significant bits. \<open>round_double_nat k\<close> is the double nearest to the
  natural number \<open>k\<close>, ties to the even significand: \<open>k\<close> itself below \<open>2 ^ 53\<close>.
\<close>

fun bit_length :: "nat \<Rightarrow> nat" where
  "bit_length n = (if n = 0 then 0 else Suc (bit_length (n div 2)))"

declare bit_length.simps [simp del]

definition round_half_even :: "nat \<Rightarrow> nat \<Rightarrow> nat" where
  "round_half_even num den =
     (let q = num div den; r = num mod den
      in if 2 * r < den then q else if den < 2 * r then q + 1
         else if even q then q else q + 1)"

definition round_double_nat :: "nat \<Rightarrow> nat" where
  "round_double_nat k =
     (if k < 2 ^ 53 then k
      else let u = 2 ^ (bit_length k - 53) in round_half_even k u * u)"

definition round_double_int :: "int \<Rightarrow> int" where
  "round_double_int k =
     (if k < 0 then - int (round_double_nat (nat (- k))) else int (round_double_nat (nat k)))"

subsection \<open>Number to string\<close>

text \<open>Decimal digits of a natural number and of an integer.\<close>

definition digit_char :: "nat \<Rightarrow> char" where
  "digit_char d = ''0123456789'' ! d"

fun show_nat :: "nat \<Rightarrow> string" where
  "show_nat n = (if n < 10 then [digit_char n] else show_nat (n div 10) @ [digit_char (n mod 10)])"

declare show_nat.simps [simp del]

definition show_int :: "int \<Rightarrow> string" where
  "show_int i = (if i < 0 then CHR ''-'' # show_nat (nat (- i)) else show_nat (nat i))"

text \<open>
  Number::toString for an integer double \<open>m\<close>: the least number \<open>k\<close> of digits \<open>s\<close>
  such that \<open>s * 10 ^ (n - k)\<close> is read back as \<open>m\<close> (the closest such \<open>s\<close>), printed
  with \<open>n - k\<close> zeros after it when \<open>n \<le> 21\<close> and with an exponent otherwise. Below
  \<open>2 ^ 53\<close> these are the decimal digits of \<open>m\<close>.
\<close>

definition digit_count :: "nat \<Rightarrow> nat" where
  "digit_count m = length (show_nat m)"

definition digit_candidates :: "nat \<Rightarrow> nat \<Rightarrow> (nat \<times> nat) list" where
  "digit_candidates m k =
     [(s, n). n \<leftarrow> [digit_count m, Suc (digit_count m)], k \<le> n,
              s \<leftarrow> [m div 10 ^ (n - k), Suc (m div 10 ^ (n - k))],
              10 ^ (k - 1) \<le> s, s < 10 ^ k, round_double_nat (s * 10 ^ (n - k)) = m]"

definition distance :: "nat \<Rightarrow> nat \<Rightarrow> nat" where
  "distance a b = (if a \<le> b then b - a else a - b)"

fun closest :: "nat \<Rightarrow> nat \<Rightarrow> (nat \<times> nat) list \<Rightarrow> (nat \<times> nat) option" where
  "closest m k [] = None"
| "closest m k ((s, n) # rest) =
     (case closest m k rest of
        None \<Rightarrow> Some (s, n)
      | Some (s', n') \<Rightarrow>
          let d = distance (s * 10 ^ (n - k)) m; d' = distance (s' * 10 ^ (n' - k)) m
          in if d < d' \<or> (d = d' \<and> even s) then Some (s, n) else Some (s', n'))"

fun shortest_digits :: "nat \<Rightarrow> nat \<Rightarrow> nat \<Rightarrow> nat \<times> nat \<times> nat" where
  "shortest_digits 0 k m = (m, digit_count m, digit_count m)"
| "shortest_digits (Suc fuel) k m =
     (case closest m k (digit_candidates m k) of
        None \<Rightarrow> shortest_digits fuel (Suc k) m
      | Some (s, n) \<Rightarrow> (s, k, n))"

definition big_number_string :: "nat \<Rightarrow> string" where
  "big_number_string m =
     (case shortest_digits (digit_count m) 1 m of
        (s, k, n) \<Rightarrow>
          if n \<le> 21 then show_nat s @ replicate (n - k) CHR ''0''
          else (case show_nat s of
                  [] \<Rightarrow> []
                | d # ds \<Rightarrow>
                    (if ds = [] then [d] else d # CHR ''.'' # ds) @ ''e+'' @ show_nat (n - 1)))"

definition number_to_string :: "int \<Rightarrow> string" where
  "number_to_string i =
     (let m = nat \<bar>i\<bar>;
          digits = (if m < 2 ^ 53 then show_nat m else big_number_string m)
      in if i < 0 then CHR ''-'' # digits else digits)"

text \<open>
  ToString, as used by a template literal \<^verbatim>\<open>`${x}`\<close> and by \<^verbatim>\<open>+\<close> with a string
  operand. An object without a \<^verbatim>\<open>toString\<close> of its own prints as
  \<^verbatim>\<open>[object Object]\<close>; the timestamp class belongs to the store's client library and is
  treated as such an object (in this program a timestamp is only ever written).
\<close>

fun to_str :: "jsval \<Rightarrow> string" where
  "to_str JUndefined = ''undefined''"
| "to_str JNull = ''null''"
| "to_str (JBool b) = (if b then ''true'' else ''false'')"
| "to_str (JNum n) = number_to_string n"
| "to_str JNaN = ''NaN''"
| "to_str (JStr s) = s"
| "to_str (JTimestamp t) = ''[object Object]''"
| "to_str (JObj kvs) = ''[object Object]''"

subsection \<open>String to number\<close>

text \<open>
  The result of ToNumber: \<^verbatim>\<open>NaN\<close>, an infinity, or the finite double
  \<open>sig * 2 ^ ex\<close>.
\<close>

datatype jsnum = NotANumber | NegInfinity | PosInfinity | Fin int int

text \<open>
  The double nearest to the decimal \<open>m * 10 ^ e\<close> (\<open>m\<close> a natural number): the binary
  exponent of the value, the significand rounded to 53 bits (fewer below the normal
  range), infinity from \<open>2 ^ 1024\<close> on.
\<close>

definition ge_pow2 :: "nat \<Rightarrow> nat \<Rightarrow> int \<Rightarrow> bool" where
  "ge_pow2 num den b =
     (if 0 \<le> b then den * 2 ^ nat b \<le> num else den \<le> num * 2 ^ nat (- b))"

definition binary_exponent :: "nat \<Rightarrow> nat \<Rightarrow> int" where
  "binary_exponent num den =
     (let b = int (bit_length num) - int (bit_length den)
      in if ge_pow2 num den b then b else b - 1)"

definition round_decimal :: "nat \<Rightarrow> int \<Rightarrow> jsnum" where
  "round_decimal m e =
     (if m = 0 then Fin 0 0
      else
        let num = (if 0 \<le> e then m * 10 ^ nat e else m);
            den = (if 0 \<le> e then 1 else 10 ^ nat (- e));
            b = binary_exponent num den;
            ex = max b (- 1022) - 52;
            sig = (if 0 \<le> ex then round_half_even num (den * 2 ^ nat ex)
                   else round_half_even (num * 2 ^ nat (- ex)) den)
        in if 1023 < b \<or> (b = 1023 \<and> sig = 2 ^ 53) then PosInfinity else Fin (int sig) ex)"

fun negate :: "jsnum \<Rightarrow> jsnum" where
  "negate NotANumber = NotANumber"
| "negate NegInfinity = PosInfinity"
| "negate PosInfinity = NegInfinity"
| "negate (Fin sig ex) = Fin (- sig) ex"

text \<open>
  StringToNumber. White space is trimmed; the empty string is 0; then a decimal literal
  (optional sign, \<^verbatim>\<open>Infinity\<close> or digits with an optional fraction and exponent) or an
  unsigned literal with a radix prefix.
\<close>

definition is_ws :: "char \<Rightarrow> bool" where
  "is_ws c = (c \<in> set [CHR '' '', CHR 0x09, CHR 0x0A, CHR 0x0B, CHR 0x0C, CHR 0x0D, CHR 0xA0])"

definition trim :: "string \<Rightarrow> string" where
  "trim s = rev (dropWhile is_ws (rev (dropWhile is_ws s)))"

definition digit_val :: "char \<Rightarrow> nat option" where
  "digit_val c =
     map_of (zip ''0123456789abcdefABCDEF''
               [0, 1, 2, 3, 4, 5, 6, 7, 8, 9, 10, 11, 12, 13, 14, 15, 10, 11, 12, 13, 14, 15]) c"

fun digits_val :: "nat \<Rightarrow> nat \<Rightarrow> string \<Rightarrow> nat option" where
  "digits_val base acc [] = Some acc"
| "digits_val base acc (c # cs) =
     (case digit_val c of
        None \<Rightarrow> None
      | Some d \<Rightarrow> if d < base then digits_val base (base * acc + d) cs else None)"

definition is_digit :: "char \<Rightarrow> bool" where
  "is_digit c = (c \<in> set ''0123456789'')"

definition radix_literal :: "nat \<Rightarrow> string \<Rightarrow> jsnum" where
  "radix_literal base ds =
     (if ds = [] then NotANumber
      else case digits_val base 0 ds of
             None \<Rightarrow> NotANumber
           | Some v \<Rightarrow> round_decimal v 0)"

definition exponent_part :: "string \<Rightarrow> int option" where
  "exponent_part r =
     (case r of
        [] \<Rightarrow> Some 0
      | c # cs \<Rightarrow>
          if c = CHR ''e'' \<or> c = CHR ''E'' then
            (let neg = (take 1 cs = ''-'');
                 ds = (if take 1 cs = ''-'' \<or> take 1 cs = ''+'' then drop 1 cs else cs)
             in if ds = [] then None
                else case digits_val 10 0 ds of
                       None \<Rightarrow> None
                     | Some v \<Rightarrow> Some (if neg then - int v else int v))
          else None)"

definition unsigned_decimal :: "string \<Rightarrow> jsnum" where
  "unsigned_decimal s =
     (if s = ''Infinity'' then PosInfinity
      else
        let ip = takeWhile is_digit s;
            r1 = dropWhile is_digit s;
            dot = (take 1 r1 = ''.'');
            fp = (if dot then takeWhile is_digit (drop 1 r1) else []);
            r2 = (if dot then dropWhile is_digit (drop 1 r1) else r1)
        in if ip = [] \<and> fp = [] then NotANumber
           else case (digits_val 10 0 (ip @ fp), exponent_part r2) of
                  (Some m, Some e) \<Rightarrow> round_decimal m (e - int (length fp))
                | _ \<Rightarrow> NotANumber)"

definition string_to_number :: "string \<Rightarrow> jsnum" where
  "string_to_number s =
     (let t = trim s
      in if t = [] then Fin 0 0
         else if take 1 t = ''+'' then unsigned_decimal (drop 1 t)
         else if take 1 t = ''-'' then negate (unsigned_decimal (drop 1 t))
         else if take 2 t = ''0x'' \<or> take 2 t = ''0X'' then radix_literal 16 (drop 2 t)
         else if take 2 t = ''0o'' \<or> take 2 t = ''0O'' then radix_literal 8 (drop 2 t)
         else if take 2 t = ''0b'' \<or> take 2 t = ''0B'' then radix_literal 2 (drop 2 t)
         else unsigned_decimal t)"

text \<open>
  ToNumber. An object is first made primitive: a plain object (and, as above, a
  timestamp) gives a string that is no number.
\<close>

fun to_number :: "jsval \<Rightarrow> jsnum" where
  "to_number JUndefined = NotANumber"
| "to_number JNull = Fin 0 0"
| "to_number (JBool b) = Fin (if b then 1 else 0) 0"
| "to_number (JNum n) = Fin n 0"
| "to_number JNaN = NotANumber"
| "to_number (JStr s) = string_to_number s"
| "to_number (JTimestamp t) = NotANumber"
| "to_number (JObj kvs) = NotANumber"

text \<open>\<^verbatim>\<open>v < n\<close> for an integer \<open>n\<close>: a comparison with \<^verbatim>\<open>NaN\<close> is false.\<close>

definition fin_less :: "int \<Rightarrow> int \<Rightarrow> int \<Rightarrow> bool" where
  "fin_less sig ex n = (if 0 \<le> ex then sig * 2 ^ nat ex < n else sig < n * 2 ^ nat (- ex))"

definition js_lt_num :: "jsval \<Rightarrow> int \<Rightarrow> bool" where
  "js_lt_num v n =
     (case to_number v of
        NotANumber \<Rightarrow> False
      | NegInfinity \<Rightarrow> True
      | PosInfinity \<Rightarrow> False
      | Fin sig ex \<Rightarrow> fin_less sig ex n)"

text \<open>
  \<^verbatim>\<open>v + n\<close> for an integer \<open>n\<close>: string concatenation when \<open>v\<close> is a string or an
  object (whose primitive is a string), addition of doubles otherwise.
\<close>

fun js_plus_num :: "jsval \<Rightarrow> int \<Rightarrow> jsval" where
  "js_plus_num (JStr s) n = JStr (s @ number_to_string n)"
| "js_plus_num (JObj kvs) n = JStr (to_str (JObj kvs) @ number_to_string n)"
| "js_plus_num (JTimestamp t) n = JStr (to_str (JTimestamp t) @ number_to_string n)"
| "js_plus_num JUndefined n = JNaN"
| "js_plus_num JNaN n = JNaN"
| "js_plus_num JNull n = JNum n"
| "js_plus_num (JBool b) n = JNum (round_double_int ((if b then 1 else 0) + n))"
| "js_plus_num (JNum m) n = JNum (round_double_int (m + n))"

section \<open>The quota store\<close>

text \<open>
  \<^verbatim>\<open>db.doc(path)\<close>: the client checks the path before it returns a reference, and throws
  when the path is empty, contains \<^verbatim>\<open>//\<close>, or does not have an even, positive number
  of components (the pieces between slashes; a leading or trailing slash counts for
  nothing).
\<close>

datatype js_error = InvalidPath | StorageFault | InvalidValue

definition path_components :: "string \<Rightarrow> string list" where
  "path_components p = filter (\<lambda>seg. seg \<noteq> []) (split_on ''/'' [] p)"

definition document_path :: "string \<Rightarrow> bool" where
  "document_path p =
     (p \<noteq> [] \<and> \<not> includes_str p ''//''
      \<and> path_components p \<noteq> [] \<and> even (length (path_components p)))"

definition db_doc :: "string \<Rightarrow> js_error + string" where
  "db_doc p = (if document_path p then Inr p else Inl InvalidPath)"

text \<open>
  The store itself: a document is a set of named fields; \<open>stored\<close> maps paths to
  documents, \<open>read_faults\<close> and \<open>write_faults\<close> say which reads and writes the store
  refuses, \<open>server_time\<close> is the value the store puts where a write carries the
  server-timestamp sentinel, and \<open>trace\<close> lists every operation performed, in order.
\<close>

type_synonym document = "string \<rightharpoonup> jsval"

datatype field_value = Val jsval | ServerTimestamp

datatype event =
    GetOk string
  | GetFailed string
  | SetOk string "(string \<times> jsval) list"
  | SetFailed string

record store =
  stored :: "string \<rightharpoonup> document"
  read_faults :: "string \<Rightarrow> bool"
  write_faults :: "string \<Rightarrow> bool"
  server_time :: int
  trace :: "event list"

text \<open>
  Only a document path names a document, and only a reference to one reaches the store:
  the document at a path, and whether its read or its write fails.
\<close>

definition docs :: "store \<Rightarrow> string \<rightharpoonup> document" where
  "docs s p = (if document_path p then stored s p else None)"

definition get_fails :: "store \<Rightarrow> string \<Rightarrow> bool" where
  "get_fails s p = (document_path p \<and> read_faults s p)"

definition set_fails :: "store \<Rightarrow> string \<Rightarrow> bool" where
  "set_fails s p = (document_path p \<and> write_faults s p)"

text \<open>\<^verbatim>\<open>ref.get()\<close>: the snapshot's \<^verbatim>\<open>data()\<close>, \<open>None\<close> for a document that does not exist.\<close>

definition get_doc :: "string \<Rightarrow> store \<Rightarrow> (js_error + document option) \<times> store" where
  "get_doc p s =
     (if get_fails s p then (Inl StorageFault, s\<lparr>trace := trace s @ [GetFailed p]\<rparr>)
      else (Inr (docs s p), s\<lparr>trace := trace s @ [GetOk p]\<rparr>))"

fun resolve :: "int \<Rightarrow> field_value \<Rightarrow> jsval" where
  "resolve now (Val v) = v"
| "resolve now ServerTimestamp = JTimestamp now"

fun merge_fields :: "document \<Rightarrow> (string \<times> jsval) list \<Rightarrow> document" where
  "merge_fields d [] = d"
| "merge_fields d ((k, v) # kvs) = merge_fields (d(k \<mapsto> v)) kvs"

text \<open>
  \<^verbatim>\<open>ref.set(fields, { merge: true })\<close>: the named fields are written, every other field
  of an existing document stays, a missing document is created. The client refuses an
  \<^verbatim>\<open>undefined\<close> field value before anything is sent. A field value that is itself an
  object is stored whole (the store would merge it field by field into a stored object;
  no write of this program is specified to carry one).
\<close>

definition merge_set ::
  "string \<Rightarrow> (string \<times> field_value) list \<Rightarrow> store \<Rightarrow> (js_error + unit) \<times> store" where
  "merge_set p given s =
     (if list_ex (\<lambda>kv. snd kv = Val JUndefined) given then (Inl InvalidValue, s)
      else if set_fails s p then (Inl StorageFault, s\<lparr>trace := trace s @ [SetFailed p]\<rparr>)
      else
        let written = map (\<lambda>kv. (fst kv, resolve (server_time s) (snd kv))) given;
            old = (case docs s p of None \<Rightarrow> Map.empty | Some d \<Rightarrow> d)
        in (Inr (), s\<lparr>stored := (stored s)(p \<mapsto> merge_fields old written),
                       trace := trace s @ [SetOk p written]\<rparr>))"

section \<open>The subscription gate: \<^verbatim>\<open>checkSubscription\<close>\<close>

record decision =
  canProceed :: bool
  message :: string

definition FREE_TIER_LIMIT :: int where
  "FREE_TIER_LIMIT = 5"

text \<open>The two template literals handed to \<^verbatim>\<open>db.doc\<close>.\<close>

definition status_path :: "string \<Rightarrow> jsval \<Rightarrow> string" where
  "status_path appId userId =
     ''/artifacts/'' @ appId @ ''/users/'' @ to_str userId @ ''/subscriptions/status''"

definition usage_path :: "string \<Rightarrow> jsval \<Rightarrow> string" where
  "usage_path appId userId =
     ''/artifacts/'' @ appId @ ''/users/'' @ to_str userId @ ''/usage/analysis_count''"

text \<open>\<^verbatim>\<open>snap.data() || dflt\<close>: an existing document is an object, hence truthy.\<close>

definition data_or :: "document option \<Rightarrow> document \<Rightarrow> document" where
  "data_or snap dflt = (case snap of None \<Rightarrow> dflt | Some d \<Rightarrow> d)"

text \<open>\<^verbatim>\<open>data.name\<close>: a field that is not there reads as \<^verbatim>\<open>undefined\<close>.\<close>

definition field :: "document \<Rightarrow> string \<Rightarrow> jsval" where
  "field d k = (case d k of None \<Rightarrow> JUndefined | Some v \<Rightarrow> v)"

definition default_status :: document where
  "default_status = [''tier'' \<mapsto> JStr ''free'', ''status'' \<mapsto> JStr ''unknown'']"

definition default_usage :: document where
  "default_usage = [''count'' \<mapsto> JNum 0]"

definition msg_user_id_required :: string where
  "msg_user_id_required = ''User ID is required for authorization.''"

definition msg_pro_active :: string where
  "msg_pro_active = ''Pro subscription active.''"

definition msg_free_usage :: "jsval \<Rightarrow> string" where
  "msg_free_usage newCount =
     ''Free tier usage: '' @ to_str newCount @ ''/'' @ to_str (JNum FREE_TIER_LIMIT) @ '' analyses used.''"

definition msg_limit_exceeded :: string where
  "msg_limit_exceeded =
     ''Free tier limit of '' @ to_str (JNum FREE_TIER_LIMIT) @ '' analyses exceeded. Please upgrade to Pro.''"

definition msg_internal_error :: string where
  "msg_internal_error = ''Internal server error during authorization check.''"

text \<open>
  The copy in the Express server (first part of \<^verbatim>\<open>src/functions/index.js\<close>). The result
  is the decision the promise resolves to, or (\<open>Inl\<close>) the error it rejects with: the two
  \<^verbatim>\<open>db.doc\<close> calls stand before the \<^verbatim>\<open>try\<close>, so an invalid path is thrown to the
  caller. Inside the \<^verbatim>\<open>try\<close> the two reads are both issued before either is awaited
  (\<^verbatim>\<open>Promise.all\<close>); a failure of either, or of the write, lands in the \<^verbatim>\<open>catch\<close>.
  Console output is left out.
\<close>

definition checkSubscription ::
  "string \<Rightarrow> jsval \<Rightarrow> store \<Rightarrow> (js_error + decision) \<times> store" where
  "checkSubscription appId userId s =
     (if \<not> truthy userId then
        (Inr \<lparr>canProceed = False, message = msg_user_id_required\<rparr>, s)
      else
        case db_doc (status_path appId userId) of
          Inl e \<Rightarrow> (Inl e, s)
        | Inr userStatusRef \<Rightarrow>
        case db_doc (usage_path appId userId) of
          Inl e \<Rightarrow> (Inl e, s)
        | Inr freeTierUsageRef \<Rightarrow>
        let (statusRes, s1) = get_doc userStatusRef s;
            (usageRes, s2) = get_doc freeTierUsageRef s1
        in case (statusRes, usageRes) of
             (Inr statusSnap, Inr usageSnap) \<Rightarrow>
               let statusData = data_or statusSnap default_status;
                   usageData = data_or usageSnap default_usage;
                   currentCount = field usageData ''count''
               in if field statusData ''tier'' = JStr ''pro''
                     \<and> field statusData ''status'' = JStr ''active''
                  then (Inr \<lparr>canProceed = True, message = msg_pro_active\<rparr>, s2)
                  else if js_lt_num currentCount FREE_TIER_LIMIT then
                    let newCount = js_plus_num currentCount 1;
                        (written, s3) =
                          merge_set freeTierUsageRef
                            [(''count'', Val newCount), (''last_use'', ServerTimestamp)] s2
                    in (case written of
                          Inr _ \<Rightarrow> (Inr \<lparr>canProceed = True, message = msg_free_usage newCount\<rparr>, s3)
                        | Inl _ \<Rightarrow> (Inr \<lparr>canProceed = False, message = msg_internal_error\<rparr>, s3))
                  else (Inr \<lparr>canProceed = False, message = msg_limit_exceeded\<rparr>, s2)
           | _ \<Rightarrow> (Inr \<lparr>canProceed = False, message = msg_internal_error\<rparr>, s2))"

text \<open>
  The copy in the cloud function (second part of \<^verbatim>\<open>src/functions/index.js\<close>): no check
  of \<^verbatim>\<open>userId\<close>, and a default usage document with a second field,
  \<^verbatim>\<open>last_reset: new Date(0)\<close> (the epoch, held here as a timestamp; it is never read).
\<close>

definition default_usage_gcf :: document where
  "default_usage_gcf = [''count'' \<mapsto> JNum 0, ''last_reset'' \<mapsto> JTimestamp 0]"

definition checkSubscription_gcf ::
  "string \<Rightarrow> jsval \<Rightarrow> store \<Rightarrow> (js_error + decision) \<times> store" where
  "checkSubscription_gcf appId userId s =
     (case db_doc (status_path appId userId) of
        Inl e \<Rightarrow> (Inl e, s)
      | Inr userStatusRef \<Rightarrow>
      case db_doc (usage_path appId userId) of
        Inl e \<Rightarrow> (Inl e, s)
      | Inr freeTierUsageRef \<Rightarrow>
      let (statusRes, s1) = get_doc userStatusRef s;
          (usageRes, s2) = get_doc freeTierUsageRef s1
      in case (statusRes, usageRes) of
           (Inr statusSnap, Inr usageSnap) \<Rightarrow>
             let statusData = data_or statusSnap default_status;
                 usageData = data_or usageSnap default_usage_gcf;
                 currentCount = field usageData ''count''
             in if field statusData ''tier'' = JStr ''pro''
                   \<and> field statusData ''status'' = JStr ''active''
                then (Inr \<lparr>canProceed = True, message = msg_pro_active\<rparr>, s2)
                else if js_lt_num currentCount FREE_TIER_LIMIT then
                  let newCount = js_plus_num currentCount 1;
                      (written, s3) =
                        merge_set freeTierUsageRef
                          [(''count'', Val newCount), (''last_use'', ServerTimestamp)] s2
                  in (case written of
                        Inr _ \<Rightarrow> (Inr \<lparr>canProceed = True, message = msg_free_usage newCount\<rparr>, s3)
                      | Inl _ \<Rightarrow> (Inr \<lparr>canProceed = False, message = msg_internal_error\<rparr>, s3))
                else (Inr \<lparr>canProceed = False, message = msg_limit_exceeded\<rparr>, s2)
         | _ \<Rightarrow> (Inr \<lparr>canProceed = False, message = msg_internal_error\<rparr>, s2))"

text \<open>A store with no documents and no faults, and the operations one call added.\<close>

definition fresh_store :: store where
  "fresh_store = \<lparr>stored = Map.empty, read_faults = (\<lambda>p. False), write_faults = (\<lambda>p. False),
                   server_time = 1700000000, trace = []\<rparr>"

definition new_events :: "store \<Rightarrow> store \<Rightarrow> event list" where
  "new_events s s' = drop (length (trace s)) (trace s')"

fun is_write :: "event \<Rightarrow> bool" where
  "is_write (SetOk p kvs) = True"
| "is_write (SetFailed p) = True"
| "is_write e = False"

fun is_failure :: "event \<Rightarrow> bool" where
  "is_failure (GetFailed p) = True"
| "is_failure (SetFailed p) = True"
| "is_failure e = False"

section \<open>HTTP requests and responses\<close>

text \<open>
  What the two handlers read of a request: the method, the \<^verbatim>\<open>Authorization\<close> header
  (\<open>None\<close> when it is not sent) and the parsed body. A handler either sends a status
  code with a body, or an exception leaves it before any response is written.
\<close>

record http_request =
  req_method :: string
  authorization :: "string option"
  body :: jsval

datatype http_result = Sent nat jsval | NoResponse

text \<open>
  \<^verbatim>\<open>v.name\<close>, for the names this program reads (none of them is a property of a
  string, number or boolean): a \<^verbatim>\<open>TypeError\<close> (\<open>None\<close>) on \<^verbatim>\<open>undefined\<close> and
  \<^verbatim>\<open>null\<close>, the field or \<^verbatim>\<open>undefined\<close> otherwise.
\<close>

fun get_prop :: "jsval \<Rightarrow> string \<Rightarrow> jsval option" where
  "get_prop JUndefined k = None"
| "get_prop JNull k = None"
| "get_prop (JObj kvs) k = Some (case map_of kvs k of None \<Rightarrow> JUndefined | Some v \<Rightarrow> v)"
| "get_prop v k = Some JUndefined"

text \<open>The same read below a truthiness guard on \<open>v\<close>, where it cannot throw.\<close>

definition read_prop :: "jsval \<Rightarrow> string \<Rightarrow> jsval" where
  "read_prop v k = (case get_prop v k of None \<Rightarrow> JUndefined | Some x \<Rightarrow> x)"

section \<open>The webhook handler: \<^verbatim>\<open>paypalWebhookHandler\<close>\<close>

definition ACTIVATED :: string where
  "ACTIVATED = ''BILLING.SUBSCRIPTION.ACTIVATED''"

definition CANCELLED :: string where
  "CANCELLED = ''BILLING.SUBSCRIPTION.CANCELLED''"

definition EXPIRED :: string where
  "EXPIRED = ''BILLING.SUBSCRIPTION.EXPIRED''"

definition webhook_status_path :: "string \<Rightarrow> jsval \<Rightarrow> string" where
  "webhook_status_path appId userId =
     ''/artifacts/'' @ appId @ ''/users/'' @ to_str userId @ ''/subscriptions/status''"

text \<open>
  The subject id: \<^verbatim>\<open>resource.subscriber.custom_id\<close> if truthy, else
  \<^verbatim>\<open>resource.custom_id\<close> if truthy, else the initial \<^verbatim>\<open>null\<close>.
\<close>

definition extract_user_id :: "jsval \<Rightarrow> jsval" where
  "extract_user_id resource =
     (if truthy resource \<and> truthy (read_prop resource ''subscriber'')
         \<and> truthy (read_prop (read_prop resource ''subscriber'') ''custom_id'')
      then read_prop (read_prop resource ''subscriber'') ''custom_id''
      else if truthy resource \<and> truthy (read_prop resource ''custom_id'')
      then read_prop resource ''custom_id''
      else JNull)"

text \<open>
  The handler. The method is checked first; only a POST reaches the CORS wrapper, which
  passes it on. A body that is \<^verbatim>\<open>null\<close> or missing makes \<^verbatim>\<open>data.event_type\<close> throw,
  and an invalid path makes \<^verbatim>\<open>db.doc\<close> throw, both before the \<^verbatim>\<open>try\<close>: no response
  is sent. In the cancelled and expired branch \<^verbatim>\<open>eventType\<close> is one of two strings, so
  \<^verbatim>\<open>toLowerCase\<close> applies to a string.
\<close>

definition paypalWebhookHandler :: "string \<Rightarrow> http_request \<Rightarrow> store \<Rightarrow> http_result \<times> store" where
  "paypalWebhookHandler appId req s =
     (if req_method req \<noteq> ''POST'' then (Sent 405 (JStr ''Method Not Allowed''), s)
      else
        let data = body req
        in case get_prop data ''event_type'' of
             None \<Rightarrow> (NoResponse, s)
           | Some eventType \<Rightarrow>
               if \<not> truthy eventType then (Sent 400 (JStr ''Invalid webhook structure''), s)
               else
                 let resource = read_prop data ''resource'';
                     userId = extract_user_id resource
                 in if \<not> truthy userId then (Sent 400 (JStr ''Missing user ID in payload''), s)
                    else
                      case db_doc (webhook_status_path appId userId) of
                        Inl e \<Rightarrow> (NoResponse, s)
                      | Inr userSubscriptionRef \<Rightarrow>
                         if eventType = JStr ACTIVATED then
                           (case merge_set userSubscriptionRef
                                   [(''tier'', Val (JStr ''pro'')),
                                    (''status'', Val (JStr ''active'')),
                                    (''paypal_id'', Val (read_prop resource ''id'')),
                                    (''expires_at'', ServerTimestamp),
                                    (''updated_at'', ServerTimestamp)] s of
                              (Inr _, s') \<Rightarrow> (Sent 204 JUndefined, s')
                            | (Inl _, s') \<Rightarrow> (Sent 500 (JStr ''Database Update Failed''), s'))
                         else if eventType = JStr CANCELLED \<or> eventType = JStr EXPIRED then
                           (case merge_set userSubscriptionRef
                                   [(''tier'', Val (JStr ''free'')),
                                    (''status'', Val (JStr (toLowerCase (to_str eventType)))),
                                    (''updated_at'', ServerTimestamp)] s of
                              (Inr _, s') \<Rightarrow> (Sent 204 JUndefined, s')
                            | (Inl _, s') \<Rightarrow> (Sent 500 (JStr ''Database Update Failed''), s'))
                         else (Sent 204 JUndefined, s))"

section \<open>The request orchestrator: \<^verbatim>\<open>runGeminiAnalysis\<close> and \<^verbatim>\<open>POST /runAnalysis\<close>\<close>

text \<open>
  The AI service and \<^verbatim>\<open>JSON.parse\<close> are parameters. The request sent is a fixed prompt
  with \<^verbatim>\<open>JSON.stringify(analysisData)\<close> inserted, so the reply is a function of
  \<open>analysisData\<close>: the call fails, or it yields the value of
  \<^verbatim>\<open>response.candidates?.[0]?.content?.parts?.[0]?.text\<close>. Neither touches the store.
\<close>

datatype ai_reply = AiFailed | AiText jsval

record ai_env =
  GEMINI_API_KEY :: jsval
  generateContent :: "jsval \<Rightarrow> ai_reply"
  json_parse :: "string \<Rightarrow> jsval option"

definition msg_ai_unprocessed :: string where
  "msg_ai_unprocessed = ''Could not process analysis via AI. Check API key and model output.''"

text \<open>\<open>Inl\<close> is the message of the thrown \<^verbatim>\<open>Error\<close>.\<close>

definition runGeminiAnalysis :: "ai_env \<Rightarrow> jsval \<Rightarrow> string + jsval" where
  "runGeminiAnalysis env analysisData =
     (if \<not> truthy (GEMINI_API_KEY env) then Inl ''API Key is missing. Cannot perform AI analysis.''
      else
        case generateContent env analysisData of
          AiFailed \<Rightarrow> Inl msg_ai_unprocessed
        | AiText jsonText \<Rightarrow>
            if \<not> truthy jsonText then Inl msg_ai_unprocessed
            else (case json_parse env (to_str jsonText) of
                    None \<Rightarrow> Inl msg_ai_unprocessed
                  | Some v \<Rightarrow> Inr v))"

text \<open>
  The bearer token \<^verbatim>\<open>header.split('Bearer ')[1]\<close>: the text between the first and the
  second occurrence of the separator, \<^verbatim>\<open>undefined\<close> when the separator does not occur.
\<close>

definition bearer_token :: "string \<Rightarrow> jsval" where
  "bearer_token header =
     (case split_on ''Bearer '' [] header of
        a # t # rest \<Rightarrow> JStr t
      | _ \<Rightarrow> JUndefined)"

definition err_body :: "string \<Rightarrow> jsval" where
  "err_body msg = JObj [(''error'', JStr msg)]"

text \<open>
  The route handler of the Express server. \<open>verifyIdToken\<close> is the identity verifier:
  the \<^verbatim>\<open>uid\<close> of the decoded token, or \<open>None\<close> when verification throws. The call of
  \<^verbatim>\<open>checkSubscription\<close> is awaited outside any \<^verbatim>\<open>try\<close>: when it rejects, the handler
  ends without a response.
\<close>

definition runAnalysis ::
  "string \<Rightarrow> (string \<Rightarrow> jsval option) \<Rightarrow> ai_env \<Rightarrow> http_request \<Rightarrow> store \<Rightarrow> http_result \<times> store" where
  "runAnalysis appId verifyIdToken env req s =
     (let token = (case authorization req of
                     None \<Rightarrow> JNull
                   | Some header \<Rightarrow> if header = [] then JNull else bearer_token header)
      in case get_prop (body req) ''data'' of
           None \<Rightarrow> (NoResponse, s)
         | Some analysisData \<Rightarrow>
             if \<not> truthy token \<or> \<not> truthy analysisData then
               (Sent 400 (err_body ''Missing authorization token or analysis data.''), s)
             else
               (case verifyIdToken (to_str token) of
                  None \<Rightarrow> (Sent 401 (err_body ''Unauthorized: Invalid authentication token.''), s)
                | Some userId \<Rightarrow>
                    (case checkSubscription appId userId s of
                       (Inl e, s') \<Rightarrow> (NoResponse, s')
                     | (Inr authCheck, s') \<Rightarrow>
                         if \<not> canProceed authCheck then
                           (Sent 403 (err_body (message authCheck)), s')
                         else
                           (case runGeminiAnalysis env analysisData of
                              Inr aiResult \<Rightarrow>
                                (Sent 200 (JObj [(''success'', JBool True),
                                                 (''message'', JStr (message authCheck)),
                                                 (''result'', aiResult)]), s')
                            | Inl e \<Rightarrow>
                                (Sent 500 (err_body ''Failed to generate AI analysis.''), s')))))"

section \<open>Notions of the specification\<close>

text \<open>
  The SubscriptionStatus and the UsageCounter of a subject, as the gate sees them: the
  stored document, or the default when there is none.
\<close>

definition subscription_status :: "store \<Rightarrow> string \<Rightarrow> jsval \<Rightarrow> document" where
  "subscription_status s appId userId = data_or (docs s (status_path appId userId)) default_status"

definition usage_counter :: "store \<Rightarrow> string \<Rightarrow> jsval \<Rightarrow> document" where
  "usage_counter s appId userId = data_or (docs s (usage_path appId userId)) default_usage"

definition pro_and_active :: "document \<Rightarrow> bool" where
  "pro_and_active st = (field st ''tier'' = JStr ''pro'' \<and> field st ''status'' = JStr ''active'')"

text \<open>The value of a field of the document stored at a path, \<^verbatim>\<open>undefined\<close> if there is none.\<close>

definition stored_field :: "store \<Rightarrow> string \<Rightarrow> string \<Rightarrow> jsval" where
  "stored_field s p k = field (data_or (docs s p) Map.empty) k"

section \<open>Sample stores and requests\<close>

text \<open>
  Stores of one subject, \<^verbatim>\<open>u1\<close>, under the application id the source falls back to,
  used to run the definitions on concrete inputs.
\<close>

definition app :: string where
  "app = ''default-app-id''"

definition u1 :: jsval where
  "u1 = JStr ''u1''"

definition u1_status :: string where
  "u1_status = ''/artifacts/default-app-id/users/u1/subscriptions/status''"

definition u1_usage :: string where
  "u1_usage = ''/artifacts/default-app-id/users/u1/usage/analysis_count''"

definition store_with :: "(string \<times> document) list \<Rightarrow> store" where
  "store_with ds = fresh_store\<lparr>stored := map_of ds\<rparr>"

definition pro_store :: store where
  "pro_store = store_with
     [(u1_status, [''tier'' \<mapsto> JStr ''pro'', ''status'' \<mapsto> JStr ''active'']),
      (u1_usage, [''count'' \<mapsto> JNum 7])]"

definition free3_store :: store where
  "free3_store = store_with
     [(u1_usage, [''count'' \<mapsto> JNum 3, ''last_use'' \<mapsto> JTimestamp 1690000000])]"

definition limit_store :: store where
  "limit_store = store_with
     [(u1_status, [''tier'' \<mapsto> JStr ''free'', ''status'' \<mapsto> JStr ''unknown'']),
      (u1_usage, [''count'' \<mapsto> JNum 5])]"

definition no_count_store :: store where
  "no_count_store = store_with [(u1_usage, [''last_use'' \<mapsto> JTimestamp 1690000000])]"

definition read_fault_store :: store where
  "read_fault_store = fresh_store\<lparr>read_faults := (\<lambda>p. p = u1_usage)\<rparr>"

definition write_fault_store :: store where
  "write_fault_store = fresh_store\<lparr>write_faults := (\<lambda>p. p = u1_usage)\<rparr>"





definition analysis_request :: http_request where
  "analysis_request = \<lparr>req_method = ''POST'', authorization = Some ''Bearer tok1'',
     body = JObj [(''data'', JObj [(''electricity_kwh'', JNum 1200)])]\<rparr>"

definition verify_tok1 :: "string \<Rightarrow> jsval option" where
  "verify_tok1 token = (if token = ''tok1'' then Some (JStr ''u1'') else None)"

definition failing_ai :: ai_env where
  "failing_ai = \<lparr>GEMINI_API_KEY = JStr ''key'', generateContent = (\<lambda>a. AiFailed),
                  json_parse = (\<lambda>t. None)\<rparr>"

section \<open>Document paths\<close>

lemma split_on_slash_append:
  "split_on ''/'' cur (xs @ CHR ''/'' # ys) = split_on ''/'' cur xs @ split_on ''/'' [] ys"
  by (induction xs arbitrary: cur) auto

lemma path_components_append:
  "path_components (xs @ CHR ''/'' # ys) = path_components xs @ path_components ys"
  by (simp add: path_components_def split_on_slash_append)

lemma includes_double_slash_append:
  "includes_str (xs @ CHR ''/'' # ys) ''//'' =
     (includes_str xs ''//'' \<or> (xs \<noteq> [] \<and> last xs = CHR ''/'')
      \<or> includes_str (CHR ''/'' # ys) ''//'')"
proof (induction xs)
  case Nil
  then show ?case by simp
next
  case (Cons a xs)
  then show ?case by (cases xs) auto
qed

lemma document_path_append:
  "document_path (xs @ CHR ''/'' # ys) =
     (\<not> includes_str xs ''//'' \<and> \<not> (xs \<noteq> [] \<and> last xs = CHR ''/'')
      \<and> \<not> includes_str (CHR ''/'' # ys) ''//''
      \<and> path_components xs @ path_components ys \<noteq> []
      \<and> even (length (path_components xs) + length (path_components ys)))"
  by (auto simp: document_path_def path_components_append includes_double_slash_append)

text \<open>
  The two paths of a subject differ in their last two components only, so one of them
  is a document path exactly when the other is.
\<close>

lemma status_path_split:
  "status_path appId userId =
     (''/artifacts/'' @ appId @ ''/users/'' @ to_str userId) @ CHR ''/'' # ''subscriptions/status''"
  by (simp add: status_path_def)

lemma usage_path_split:
  "usage_path appId userId =
     (''/artifacts/'' @ appId @ ''/users/'' @ to_str userId) @ CHR ''/'' # ''usage/analysis_count''"
  by (simp add: usage_path_def)

lemma status_tail: "path_components ''subscriptions/status'' = [''subscriptions'', ''status'']"
  "\<not> includes_str (CHR ''/'' # ''subscriptions/status'') ''//''"
  by (simp_all add: path_components_def)

lemma usage_tail: "path_components ''usage/analysis_count'' = [''usage'', ''analysis_count'']"
  "\<not> includes_str (CHR ''/'' # ''usage/analysis_count'') ''//''"
  by (simp_all add: path_components_def)

lemma usage_path_valid_iff:
  "document_path (usage_path appId userId) = document_path (status_path appId userId)"
  unfolding status_path_split usage_path_split document_path_append
  by (simp only: status_tail usage_tail) simp

lemma webhook_path_is_status_path: "webhook_status_path appId userId = status_path appId userId"
  by (simp add: webhook_status_path_def status_path_def)

lemma docs_document_path: "docs s p = Some d \<Longrightarrow> document_path p"
  by (simp add: docs_def split: if_splits)

lemma get_fails_document_path: "get_fails s p \<Longrightarrow> document_path p"
  by (simp add: get_fails_def)

lemma set_fails_document_path: "set_fails s p \<Longrightarrow> document_path p"
  by (simp add: set_fails_def)

lemma u1_paths: "status_path app u1 = u1_status" "usage_path app u1 = u1_usage"
  by (simp_all add: status_path_def usage_path_def app_def u1_def u1_status_def u1_usage_def)

lemma u1_paths_valid: "document_path u1_status" "document_path u1_usage"
  by (simp_all add: document_path_def path_components_def u1_status_def u1_usage_def)

lemma undefined_paths_valid:
  "document_path ''/artifacts/default-app-id/users/undefined/subscriptions/status''"
  "document_path ''/artifacts/default-app-id/users/undefined/usage/analysis_count''"
  by (simp_all add: document_path_def path_components_def)

section \<open>Facts about the text of the messages\<close>

lemma round_double_int_small: "\<bar>k\<bar> < 2 ^ 53 \<Longrightarrow> round_double_int k = k"
  by (auto simp: round_double_int_def round_double_nat_def)

lemma number_to_string_small: "\<bar>i\<bar> < 2 ^ 53 \<Longrightarrow> number_to_string i = show_int i"
  by (auto simp: number_to_string_def show_int_def Let_def)

lemma show_int_5: "show_int 5 = ''5''"
  by (simp add: show_int_def show_nat.simps digit_char_def)

lemma limit_text: "number_to_string FREE_TIER_LIMIT = ''5''"
  unfolding FREE_TIER_LIMIT_def by (simp add: number_to_string_small show_int_5)

lemma msg_limit_exceeded_text:
  "msg_limit_exceeded = ''Free tier limit of 5 analyses exceeded. Please upgrade to Pro.''"
  by (simp add: msg_limit_exceeded_def limit_text)

lemma msg_free_usage_text:
  "\<bar>n\<bar> < 2 ^ 53 \<Longrightarrow>
     msg_free_usage (JNum n) = ''Free tier usage: '' @ show_int n @ ''/5 analyses used.''"
  by (simp add: msg_free_usage_def limit_text number_to_string_small)

lemma msg_internal_error_text:
  "msg_internal_error = ''Internal server error during authorization check.''"
  by (simp add: msg_internal_error_def)

section \<open>The branches of the gate\<close>

lemma new_events_append [simp]:
  "trace s' = trace s @ evs \<Longrightarrow> new_events s s' = evs"
  by (simp add: new_events_def)

lemma docs_after_trace [simp]: "docs (s\<lparr>trace := t\<rparr>) = docs s"
  by (rule ext) (simp add: docs_def)

lemma get_fails_after_trace [simp]: "get_fails (s\<lparr>trace := t\<rparr>) = get_fails s"
  by (rule ext) (simp add: get_fails_def)

lemma set_fails_after_trace [simp]: "set_fails (s\<lparr>trace := t\<rparr>) = set_fails s"
  by (rule ext) (simp add: set_fails_def)

lemma docs_after_write:
  "document_path p \<Longrightarrow> docs (s\<lparr>stored := (stored s)(p \<mapsto> d)\<rparr>) = (docs s)(p \<mapsto> d)"
  by (rule ext) (simp add: docs_def)

lemma gate_refs:
  assumes "document_path (status_path appId userId)"
  shows "db_doc (status_path appId userId) = Inr (status_path appId userId)"
    and "db_doc (usage_path appId userId) = Inr (usage_path appId userId)"
  using assms by (simp_all add: db_doc_def usage_path_valid_iff)

lemma plus_one_defined: "js_lt_num v n \<Longrightarrow> js_plus_num v 1 \<noteq> JUndefined"
  by (cases v) (auto simp: js_lt_num_def)

lemma lt_limit_int: "js_lt_num (JNum c) FREE_TIER_LIMIT = (c < 5)"
  by (simp add: js_lt_num_def fin_less_def FREE_TIER_LIMIT_def)

lemma pro_status_is_stored:
  assumes "pro_and_active (subscription_status s appId userId)"
  shows "document_path (status_path appId userId)"
proof (cases "docs s (status_path appId userId)")
  case None
  with assms show ?thesis
    by (simp add: pro_and_active_def subscription_status_def data_or_def default_status_def field_def)
next
  case (Some d)
  then show ?thesis by (rule docs_document_path)
qed

lemma counted_usage_is_stored:
  assumes "field (usage_counter s appId userId) ''count'' = JNum c"
    and "c \<noteq> 0"
  shows "document_path (status_path appId userId)"
proof (cases "docs s (usage_path appId userId)")
  case None
  with assms show ?thesis
    by (simp add: usage_counter_def data_or_def default_usage_def field_def)
next
  case (Some d)
  then have "document_path (usage_path appId userId)" by (rule docs_document_path)
  then show ?thesis by (simp add: usage_path_valid_iff)
qed

lemma check_invalid_path:
  assumes "truthy userId"
    and "\<not> document_path (status_path appId userId)"
  shows "checkSubscription appId userId s = (Inl InvalidPath, s)"
  using assms by (simp add: checkSubscription_def db_doc_def)

lemma check_pro:
  assumes "truthy userId"
    and "\<not> get_fails s (status_path appId userId)"
    and "\<not> get_fails s (usage_path appId userId)"
    and "pro_and_active (subscription_status s appId userId)"
  shows "checkSubscription appId userId s =
           (Inr \<lparr>canProceed = True, message = msg_pro_active\<rparr>,
            s\<lparr>trace := trace s @ [GetOk (status_path appId userId), GetOk (usage_path appId userId)]\<rparr>)"
  using assms gate_refs [OF pro_status_is_stored [OF assms(4)]]
  by (simp add: checkSubscription_def get_doc_def Let_def pro_and_active_def subscription_status_def)

lemma check_free_coerced:
  assumes "truthy userId"
    and "document_path (status_path appId userId)"
    and "\<not> get_fails s (status_path appId userId)"
    and "\<not> get_fails s (usage_path appId userId)"
    and "\<not> set_fails s (usage_path appId userId)"
    and "\<not> pro_and_active (subscription_status s appId userId)"
    and "js_lt_num (field (usage_counter s appId userId) ''count'') FREE_TIER_LIMIT"
    and "newCount = js_plus_num (field (usage_counter s appId userId) ''count'') 1"
  shows "checkSubscription appId userId s =
           (Inr \<lparr>canProceed = True, message = msg_free_usage newCount\<rparr>,
            s\<lparr>stored := (stored s)(usage_path appId userId \<mapsto>
                    (case docs s (usage_path appId userId) of None \<Rightarrow> Map.empty | Some d \<Rightarrow> d)
                      (''count'' \<mapsto> newCount, ''last_use'' \<mapsto> JTimestamp (server_time s))),
               trace := trace s @ [GetOk (status_path appId userId), GetOk (usage_path appId userId),
                  SetOk (usage_path appId userId)
                    [(''count'', newCount), (''last_use'', JTimestamp (server_time s))]]\<rparr>)"
  using assms plus_one_defined [OF assms(7)] gate_refs [OF assms(2)]
  by (auto simp: checkSubscription_def get_doc_def merge_set_def Let_def pro_and_active_def
      subscription_status_def usage_counter_def)

lemma check_free:
  assumes "truthy userId"
    and "document_path (status_path appId userId)"
    and "\<not> get_fails s (status_path appId userId)"
    and "\<not> get_fails s (usage_path appId userId)"
    and "\<not> set_fails s (usage_path appId userId)"
    and "\<not> pro_and_active (subscription_status s appId userId)"
    and "field (usage_counter s appId userId) ''count'' = JNum c"
    and "0 \<le> c"
    and "c < 5"
  shows "checkSubscription appId userId s =
           (Inr \<lparr>canProceed = True, message = msg_free_usage (JNum (c + 1))\<rparr>,
            s\<lparr>stored := (stored s)(usage_path appId userId \<mapsto>
                    (case docs s (usage_path appId userId) of None \<Rightarrow> Map.empty | Some d \<Rightarrow> d)
                      (''count'' \<mapsto> JNum (c + 1), ''last_use'' \<mapsto> JTimestamp (server_time s))),
               trace := trace s @ [GetOk (status_path appId userId), GetOk (usage_path appId userId),
                  SetOk (usage_path appId userId)
                    [(''count'', JNum (c + 1)), (''last_use'', JTimestamp (server_time s))]]\<rparr>)"
proof -
  have lt: "js_lt_num (field (usage_counter s appId userId) ''count'') FREE_TIER_LIMIT"
    using assms(7,9) by (simp add: lt_limit_int)
  have "\<bar>c + 1\<bar> < 2 ^ 53"
    using assms(8,9) by simp
  then have new: "JNum (c + 1) = js_plus_num (field (usage_counter s appId userId) ''count'') 1"
    using assms(7) by (simp add: round_double_int_small)
  show ?thesis
    by (rule check_free_coerced [OF assms(1-6) lt new])
qed

lemma check_limit:
  assumes "truthy userId"
    and "document_path (status_path appId userId)"
    and "\<not> get_fails s (status_path appId userId)"
    and "\<not> get_fails s (usage_path appId userId)"
    and "\<not> pro_and_active (subscription_status s appId userId)"
    and "\<not> js_lt_num (field (usage_counter s appId userId) ''count'') FREE_TIER_LIMIT"
  shows "checkSubscription appId userId s =
           (Inr \<lparr>canProceed = False, message = msg_limit_exceeded\<rparr>,
            s\<lparr>trace := trace s @ [GetOk (status_path appId userId), GetOk (usage_path appId userId)]\<rparr>)"
  using assms gate_refs [OF assms(2)]
  by (auto simp: checkSubscription_def get_doc_def Let_def pro_and_active_def
      subscription_status_def usage_counter_def)

lemma check_read_fault:
  assumes "truthy userId"
    and "get_fails s (status_path appId userId) \<or> get_fails s (usage_path appId userId)"
  shows "fst (checkSubscription appId userId s)
           = Inr \<lparr>canProceed = False, message = msg_internal_error\<rparr>"
    and "docs (snd (checkSubscription appId userId s)) = docs s"
proof -
  have "document_path (status_path appId userId)"
    using assms(2) get_fails_document_path usage_path_valid_iff by blast
  note refs = gate_refs [OF this]
  show "fst (checkSubscription appId userId s)
           = Inr \<lparr>canProceed = False, message = msg_internal_error\<rparr>"
    using assms refs by (auto simp: checkSubscription_def get_doc_def Let_def)
  show "docs (snd (checkSubscription appId userId s)) = docs s"
    using assms refs by (auto simp: checkSubscription_def get_doc_def Let_def)
qed

lemma check_write_fault:
  assumes "truthy userId"
    and "\<not> get_fails s (status_path appId userId)"
    and "\<not> get_fails s (usage_path appId userId)"
    and "\<not> pro_and_active (subscription_status s appId userId)"
    and "js_lt_num (field (usage_counter s appId userId) ''count'') FREE_TIER_LIMIT"
    and "set_fails s (usage_path appId userId)"
  shows "checkSubscription appId userId s =
           (Inr \<lparr>canProceed = False, message = msg_internal_error\<rparr>,
            s\<lparr>trace := trace s @ [GetOk (status_path appId userId), GetOk (usage_path appId userId),
                  SetFailed (usage_path appId userId)]\<rparr>)"
proof -
  have "document_path (status_path appId userId)"
    using assms(6) set_fails_document_path usage_path_valid_iff by blast
  note refs = gate_refs [OF this]
  show ?thesis
    using assms refs
    by (auto simp: checkSubscription_def get_doc_def merge_set_def Let_def pro_and_active_def
        subscription_status_def usage_counter_def dest: plus_one_defined)
qed

lemma check_failure_event:
  assumes "list_ex is_failure (new_events s (snd (checkSubscription appId userId s)))"
  shows "fst (checkSubscription appId userId s)
           = Inr \<lparr>canProceed = False, message = msg_internal_error\<rparr>"
  using assms
  by (auto simp: checkSubscription_def db_doc_def get_doc_def merge_set_def Let_def new_events_def
      split: if_splits)

section \<open>Counts that are not plain integers\<close>

text \<open>
  The comparison and the addition coerce the stored count. A count of \<^verbatim>\<open>null\<close>
  compares as 0 and is replaced by 1; a count stored as the string "3" (or "0x3")
  compares as 3 and is replaced by the string "31" (or "0x31"); a count of
  \<open>- 2 ^ 54\<close> is below the limit and is written back unchanged, since the sum is
  rounded to a double.
\<close>

lemma bit_length_numeral:
  "bit_length 0 = 0"
  "bit_length (Suc 0) = 1"
  "bit_length 1 = 1"
  "bit_length (numeral k) = Suc (bit_length (numeral k div 2))"
  by (subst bit_length.simps, simp add: bit_length.simps [of 0])+

lemma null_count_coerced: "js_lt_num JNull FREE_TIER_LIMIT" "js_plus_num JNull 1 = JNum 1"
  by (simp_all add: js_lt_num_def fin_less_def FREE_TIER_LIMIT_def)

lemma one_text: "number_to_string 1 = ''1''"
  by (simp add: number_to_string_small show_int_def show_nat.simps digit_char_def)

lemmas string_to_number_defs =
  string_to_number_def trim_def is_ws_def unsigned_decimal_def is_digit_def radix_literal_def
  digit_val_def exponent_part_def round_decimal_def binary_exponent_def ge_pow2_def
  round_half_even_def bit_length_numeral Let_def

lemma string_count_coerced:
  "js_lt_num (JStr ''3'') FREE_TIER_LIMIT" "js_plus_num (JStr ''3'') 1 = JStr ''31''"
  "js_lt_num (JStr ''0x3'') FREE_TIER_LIMIT" "js_plus_num (JStr ''0x3'') 1 = JStr ''0x31''"
  by (simp_all add: js_lt_num_def fin_less_def FREE_TIER_LIMIT_def string_to_number_defs one_text)

lemma huge_negative_count_rounded: "js_plus_num (JNum (- (2 ^ 54))) 1 = JNum (- (2 ^ 54))"
  by (simp add: round_double_int_def round_double_nat_def round_half_even_def
      bit_length_numeral Let_def)

lemma fifth_admission_reason:
  "msg_free_usage (JNum 5) = ''Free tier usage: 5/5 analyses used.''"
  "includes_str (msg_free_usage (JNum 5)) ''5/5''"
  by (simp_all add: msg_free_usage_text show_int_5)

text \<open>A subject id that makes an invalid path: the call throws, nothing is read or written.\<close>

lemma slash_id_throws:
  "checkSubscription ''default-app-id'' (JStr ''a/b'') s = (Inl InvalidPath, s)"
  "checkSubscription_gcf ''default-app-id'' (JStr '''') s = (Inl InvalidPath, s)"
  by (simp_all add: checkSubscription_def checkSubscription_gcf_def db_doc_def status_path_def
      document_path_def path_components_def)

lemmas sample_defs =
  app_def u1_def u1_status_def u1_usage_def store_with_def fresh_store_def
  status_path_def usage_path_def subscription_status_def usage_counter_def pro_and_active_def
  data_or_def field_def default_status_def default_usage_def

section \<open>The claims about the gate\<close>

text \<open>
  C2. A subject whose SubscriptionStatus has tier = pro and status = active is admitted
  with reason "Pro subscription active.", whatever the UsageCounter holds, and the call
  performs the two reads and nothing else: the documents are unchanged and nothing is
  written. The subject has an id and the two reads succeed.
\<close>

theorem pro_active_admitted_without_write:
  assumes "truthy userId"
    and "\<not> get_fails s (status_path appId userId)"
    and "\<not> get_fails s (usage_path appId userId)"
    and "pro_and_active (subscription_status s appId userId)"
  shows "fst (checkSubscription appId userId s)
           = Inr \<lparr>canProceed = True, message = ''Pro subscription active.''\<rparr>
       \<and> docs (snd (checkSubscription appId userId s)) = docs s
       \<and> new_events s (snd (checkSubscription appId userId s))
           = [GetOk (status_path appId userId), GetOk (usage_path appId userId)]
       \<and> \<not> list_ex is_write (new_events s (snd (checkSubscription appId userId s)))"
  by (simp add: check_pro [OF assms] msg_pro_active_def)

theorem pro_active_admitted_without_write_witness:
  "pro_and_active (subscription_status pro_store app u1)
   \<and> field (usage_counter pro_store app u1) ''count'' = JNum 7
   \<and> fst (checkSubscription app u1 pro_store)
       = Inr \<lparr>canProceed = True, message = ''Pro subscription active.''\<rparr>
   \<and> docs (snd (checkSubscription app u1 pro_store)) = docs pro_store
   \<and> new_events pro_store (snd (checkSubscription app u1 pro_store)) = [GetOk u1_status, GetOk u1_usage]
   \<and> \<not> list_ex is_write (new_events pro_store (snd (checkSubscription app u1 pro_store)))"
proof -
  have h1: "truthy u1" by (simp add: u1_def)
  have h2: "\<not> get_fails pro_store (status_path app u1)"
    and h3: "\<not> get_fails pro_store (usage_path app u1)"
    by (simp_all add: get_fails_def pro_store_def store_with_def fresh_store_def)
  have d: "docs pro_store u1_status = Some [''tier'' \<mapsto> JStr ''pro'', ''status'' \<mapsto> JStr ''active'']"
    "docs pro_store u1_usage = Some [''count'' \<mapsto> JNum 7]"
    by (simp_all add: docs_def u1_paths_valid pro_store_def store_with_def)
      (simp add: u1_status_def u1_usage_def)
  have h4: "pro_and_active (subscription_status pro_store app u1)"
    by (simp add: subscription_status_def u1_paths d pro_and_active_def data_or_def field_def)
  have h5: "field (usage_counter pro_store app u1) ''count'' = JNum 7"
    by (simp add: usage_counter_def u1_paths d data_or_def field_def)
  from pro_active_admitted_without_write [OF h1 h2 h3 h4] h4 h5 show ?thesis
    by (simp add: u1_paths)
qed

text \<open>
  C1. A subject that is not pro and active, with a UsageCounter count \<open>c\<close> below 5 (a
  non-negative integer), is admitted with reason "Free tier usage: c+1/5 analyses used.",
  and count = c + 1 is merge-written with the server's timestamp: the other fields of the
  usage document and every other document stay. In particular a fresh subject, with
  neither document stored, is read as \<open>{tier: free, status: unknown}\<close> and
  \<open>{count: 0}\<close>, is admitted, and count = 1 is written. The subject has an id that makes
  its two paths document paths (otherwise \<^verbatim>\<open>db.doc\<close> throws and there is no decision),
  and the two reads and the write succeed.
\<close>

theorem free_tier_admitted_and_counted:
  assumes "truthy userId"
    and "document_path (status_path appId userId)"
    and "document_path (usage_path appId userId)"
    and "\<not> get_fails s (status_path appId userId)"
    and "\<not> get_fails s (usage_path appId userId)"
    and "\<not> set_fails s (usage_path appId userId)"
  shows "(\<not> pro_and_active (subscription_status s appId userId)
            \<and> field (usage_counter s appId userId) ''count'' = JNum c \<and> 0 \<le> c \<and> c < 5 \<longrightarrow>
          checkSubscription appId userId s =
            (Inr \<lparr>canProceed = True,
                  message = ''Free tier usage: '' @ show_int (c + 1) @ ''/5 analyses used.''\<rparr>,
             s\<lparr>stored := (stored s)(usage_path appId userId \<mapsto>
                     (case docs s (usage_path appId userId) of None \<Rightarrow> Map.empty | Some d \<Rightarrow> d)
                       (''count'' \<mapsto> JNum (c + 1), ''last_use'' \<mapsto> JTimestamp (server_time s))),
                trace := trace s @
                  [GetOk (status_path appId userId), GetOk (usage_path appId userId),
                   SetOk (usage_path appId userId)
                     [(''count'', JNum (c + 1)), (''last_use'', JTimestamp (server_time s))]]\<rparr>)
          \<and> docs (snd (checkSubscription appId userId s)) =
              (docs s)(usage_path appId userId \<mapsto>
                 (case docs s (usage_path appId userId) of None \<Rightarrow> Map.empty | Some d \<Rightarrow> d)
                   (''count'' \<mapsto> JNum (c + 1), ''last_use'' \<mapsto> JTimestamp (server_time s))))
       \<and> (docs s (status_path appId userId) = None \<and> docs s (usage_path appId userId) = None \<longrightarrow>
          subscription_status s appId userId = [''tier'' \<mapsto> JStr ''free'', ''status'' \<mapsto> JStr ''unknown'']
          \<and> usage_counter s appId userId = [''count'' \<mapsto> JNum 0]
          \<and> checkSubscription appId userId s =
            (Inr \<lparr>canProceed = True, message = ''Free tier usage: 1/5 analyses used.''\<rparr>,
             s\<lparr>stored := (stored s)(usage_path appId userId \<mapsto>
                     [''count'' \<mapsto> JNum 1, ''last_use'' \<mapsto> JTimestamp (server_time s)]),
                trace := trace s @
                  [GetOk (status_path appId userId), GetOk (usage_path appId userId),
                   SetOk (usage_path appId userId)
                     [(''count'', JNum 1), (''last_use'', JTimestamp (server_time s))]]\<rparr>)
          \<and> docs (snd (checkSubscription appId userId s)) (usage_path appId userId) =
              Some [''count'' \<mapsto> JNum 1, ''last_use'' \<mapsto> JTimestamp (server_time s)])"
proof (intro conjI impI)
  assume h: "\<not> pro_and_active (subscription_status s appId userId)
      \<and> field (usage_counter s appId userId) ''count'' = JNum c \<and> 0 \<le> c \<and> c < 5"
  then have np: "\<not> pro_and_active (subscription_status s appId userId)"
    and cnt: "field (usage_counter s appId userId) ''count'' = JNum c"
    and c0: "0 \<le> c" and c5: "c < 5"
    by simp_all
  have small: "\<bar>c + 1\<bar> < 2 ^ 53"
    using c0 c5 by simp
  note r = check_free [OF assms(1,2,4,5,6) np cnt c0 c5]
  show "checkSubscription appId userId s =
            (Inr \<lparr>canProceed = True,
                  message = ''Free tier usage: '' @ show_int (c + 1) @ ''/5 analyses used.''\<rparr>,
             s\<lparr>stored := (stored s)(usage_path appId userId \<mapsto>
                     (case docs s (usage_path appId userId) of None \<Rightarrow> Map.empty | Some d \<Rightarrow> d)
                       (''count'' \<mapsto> JNum (c + 1), ''last_use'' \<mapsto> JTimestamp (server_time s))),
                trace := trace s @
                  [GetOk (status_path appId userId), GetOk (usage_path appId userId),
                   SetOk (usage_path appId userId)
                     [(''count'', JNum (c + 1)), (''last_use'', JTimestamp (server_time s))]]\<rparr>)"
    by (simp add: r msg_free_usage_text [OF small])
  show "docs (snd (checkSubscription appId userId s)) =
              (docs s)(usage_path appId userId \<mapsto>
                 (case docs s (usage_path appId userId) of None \<Rightarrow> Map.empty | Some d \<Rightarrow> d)
                   (''count'' \<mapsto> JNum (c + 1), ''last_use'' \<mapsto> JTimestamp (server_time s)))"
    by (simp add: r docs_after_write [OF assms(3)])
next
  assume fresh: "docs s (status_path appId userId) = None \<and> docs s (usage_path appId userId) = None"
  then show st: "subscription_status s appId userId = [''tier'' \<mapsto> JStr ''free'', ''status'' \<mapsto> JStr ''unknown'']"
    by (simp add: subscription_status_def data_or_def default_status_def)
  from fresh show us: "usage_counter s appId userId = [''count'' \<mapsto> JNum 0]"
    by (simp add: usage_counter_def data_or_def default_usage_def)
  have np: "\<not> pro_and_active (subscription_status s appId userId)"
    by (simp add: st pro_and_active_def field_def)
  have c0: "field (usage_counter s appId userId) ''count'' = JNum 0"
    by (simp add: us field_def)
  have one: "show_int 1 = ''1''"
    by (simp add: show_int_def show_nat.simps digit_char_def)
  have r: "checkSubscription appId userId s =
            (Inr \<lparr>canProceed = True, message = ''Free tier usage: 1/5 analyses used.''\<rparr>,
             s\<lparr>stored := (stored s)(usage_path appId userId \<mapsto>
                     [''count'' \<mapsto> JNum 1, ''last_use'' \<mapsto> JTimestamp (server_time s)]),
                trace := trace s @
                  [GetOk (status_path appId userId), GetOk (usage_path appId userId),
                   SetOk (usage_path appId userId)
                     [(''count'', JNum 1), (''last_use'', JTimestamp (server_time s))]]\<rparr>)"
    using check_free [OF assms(1,2,4,5,6) np c0] fresh
    by (simp add: msg_free_usage_text one)
  then show "checkSubscription appId userId s =
            (Inr \<lparr>canProceed = True, message = ''Free tier usage: 1/5 analyses used.''\<rparr>,
             s\<lparr>stored := (stored s)(usage_path appId userId \<mapsto>
                     [''count'' \<mapsto> JNum 1, ''last_use'' \<mapsto> JTimestamp (server_time s)]),
                trace := trace s @
                  [GetOk (status_path appId userId), GetOk (usage_path appId userId),
                   SetOk (usage_path appId userId)
                     [(''count'', JNum 1), (''last_use'', JTimestamp (server_time s))]]\<rparr>)" .
  show "docs (snd (checkSubscription appId userId s)) (usage_path appId userId) =
              Some [''count'' \<mapsto> JNum 1, ''last_use'' \<mapsto> JTimestamp (server_time s)]"
    by (simp add: r docs_after_write [OF assms(3)])
qed

theorem free_tier_admitted_and_counted_witness:
  "document_path (status_path app u1) \<and> document_path (usage_path app u1)
   \<and> field (usage_counter free3_store app u1) ''count'' = JNum 3
   \<and> fst (checkSubscription app u1 free3_store)
       = Inr \<lparr>canProceed = True, message = ''Free tier usage: 4/5 analyses used.''\<rparr>
   \<and> docs (snd (checkSubscription app u1 free3_store)) u1_usage
       = Some [''count'' \<mapsto> JNum 4, ''last_use'' \<mapsto> JTimestamp 1700000000]
   \<and> docs fresh_store u1_status = None \<and> docs fresh_store u1_usage = None
   \<and> fst (checkSubscription app u1 fresh_store)
       = Inr \<lparr>canProceed = True, message = ''Free tier usage: 1/5 analyses used.''\<rparr>
   \<and> docs (snd (checkSubscription app u1 fresh_store)) u1_usage
       = Some [''count'' \<mapsto> JNum 1, ''last_use'' \<mapsto> JTimestamp 1700000000]"
proof -
  have u: "truthy u1" by (simp add: u1_def)
  have v: "document_path (status_path app u1)" "document_path (usage_path app u1)"
    by (simp_all add: u1_paths u1_paths_valid)
  have four: "show_int 4 = ''4''"
    by (simp add: show_int_def show_nat.simps digit_char_def)
  have a: "\<not> get_fails free3_store (status_path app u1)"
    "\<not> get_fails free3_store (usage_path app u1)"
    "\<not> set_fails free3_store (usage_path app u1)"
    by (simp_all add: get_fails_def set_fails_def free3_store_def store_with_def fresh_store_def)
  have d3: "docs free3_store u1_status = None"
    "docs free3_store u1_usage = Some [''count'' \<mapsto> JNum 3, ''last_use'' \<mapsto> JTimestamp 1690000000]"
    by (simp_all add: docs_def u1_paths_valid free3_store_def store_with_def fresh_store_def)
      (simp_all add: u1_status_def u1_usage_def)
  have a': "\<not> pro_and_active (subscription_status free3_store app u1)"
    "field (usage_counter free3_store app u1) ''count'' = JNum 3"
    by (simp_all add: subscription_status_def usage_counter_def u1_paths d3 pro_and_active_def
        data_or_def field_def default_status_def)
  have b: "\<not> get_fails fresh_store (status_path app u1)"
    "\<not> get_fails fresh_store (usage_path app u1)"
    "\<not> set_fails fresh_store (usage_path app u1)"
    by (simp_all add: get_fails_def set_fails_def fresh_store_def)
  have b': "docs fresh_store u1_status = None" "docs fresh_store u1_usage = None"
    by (simp_all add: docs_def fresh_store_def)
  have t: "server_time free3_store = 1700000000" "server_time fresh_store = 1700000000"
    by (simp_all add: free3_store_def store_with_def fresh_store_def)
  note w3 = free_tier_admitted_and_counted [OF u v a, of 3, unfolded u1_paths]
  note w0 = free_tier_admitted_and_counted [OF u v b, of 0, unfolded u1_paths]
  from w3 a' have r3: "fst (checkSubscription app u1 free3_store)
       = Inr \<lparr>canProceed = True, message = ''Free tier usage: 4/5 analyses used.''\<rparr>"
    by (simp add: four)
  from w3 a' have s3: "docs (snd (checkSubscription app u1 free3_store)) u1_usage
       = Some [''count'' \<mapsto> JNum 4, ''last_use'' \<mapsto> JTimestamp 1700000000]"
    by (simp add: d3 t docs_after_write u1_paths_valid)
  from w0 b' have r0: "fst (checkSubscription app u1 fresh_store)
       = Inr \<lparr>canProceed = True, message = ''Free tier usage: 1/5 analyses used.''\<rparr>"
    by simp
  from w0 b' have s0: "docs (snd (checkSubscription app u1 fresh_store)) u1_usage
       = Some [''count'' \<mapsto> JNum 1, ''last_use'' \<mapsto> JTimestamp 1700000000]"
    by (simp add: t docs_after_write u1_paths_valid)
  from v a'(2) r3 s3 b' r0 s0 show ?thesis
    by (intro conjI)
qed

text \<open>
  C3. A subject that is not pro and active, with a UsageCounter count of 5 or more, is
  denied with reason "Free tier limit of 5 analyses exceeded. Please upgrade to Pro.";
  the call performs the two reads and nothing else, so the UsageCounter and every other
  document are unchanged. The subject has an id and the two reads succeed.
\<close>

theorem limit_reached_denied_without_write:
  assumes "truthy userId"
    and "\<not> get_fails s (status_path appId userId)"
    and "\<not> get_fails s (usage_path appId userId)"
    and "\<not> pro_and_active (subscription_status s appId userId)"
    and "field (usage_counter s appId userId) ''count'' = JNum c"
    and "5 \<le> c"
  shows "fst (checkSubscription appId userId s)
           = Inr \<lparr>canProceed = False,
                  message = ''Free tier limit of 5 analyses exceeded. Please upgrade to Pro.''\<rparr>
       \<and> docs (snd (checkSubscription appId userId s)) = docs s
       \<and> new_events s (snd (checkSubscription appId userId s))
           = [GetOk (status_path appId userId), GetOk (usage_path appId userId)]
       \<and> \<not> list_ex is_write (new_events s (snd (checkSubscription appId userId s)))"
proof -
  have v: "document_path (status_path appId userId)"
    using assms(5,6) by (intro counted_usage_is_stored [of s appId userId c]) simp_all
  have "\<not> js_lt_num (field (usage_counter s appId userId) ''count'') FREE_TIER_LIMIT"
    using assms(5,6) by (simp add: lt_limit_int)
  from check_limit [OF assms(1) v assms(2-4) this] show ?thesis
    by (simp add: msg_limit_exceeded_text)
qed

theorem limit_reached_denied_without_write_witness:
  "\<not> pro_and_active (subscription_status limit_store app u1)
   \<and> field (usage_counter limit_store app u1) ''count'' = JNum 5
   \<and> fst (checkSubscription app u1 limit_store)
       = Inr \<lparr>canProceed = False,
              message = ''Free tier limit of 5 analyses exceeded. Please upgrade to Pro.''\<rparr>
   \<and> docs (snd (checkSubscription app u1 limit_store)) = docs limit_store
   \<and> new_events limit_store (snd (checkSubscription app u1 limit_store)) = [GetOk u1_status, GetOk u1_usage]
   \<and> \<not> list_ex is_write (new_events limit_store (snd (checkSubscription app u1 limit_store)))"
proof -
  have h1: "truthy u1" by (simp add: u1_def)
  have h2: "\<not> get_fails limit_store (status_path app u1)"
    and h3: "\<not> get_fails limit_store (usage_path app u1)"
    by (simp_all add: get_fails_def limit_store_def store_with_def fresh_store_def)
  have d: "docs limit_store u1_status = Some [''tier'' \<mapsto> JStr ''free'', ''status'' \<mapsto> JStr ''unknown'']"
    "docs limit_store u1_usage = Some [''count'' \<mapsto> JNum 5]"
    by (simp_all add: docs_def u1_paths_valid limit_store_def store_with_def)
      (simp add: u1_status_def u1_usage_def)
  have h4: "\<not> pro_and_active (subscription_status limit_store app u1)"
    by (simp add: subscription_status_def u1_paths d pro_and_active_def data_or_def field_def)
  have h5: "field (usage_counter limit_store app u1) ''count'' = JNum 5"
    by (simp add: usage_counter_def u1_paths d data_or_def field_def)
  have h6: "(5::int) \<le> 5" by simp
  from limit_reached_denied_without_write [OF h1 h2 h3 h4 h5 h6] h4 h5 show ?thesis
    by (simp add: u1_paths)
qed

text \<open>
  C4, as amended. A subject with count = 5 and tier = free is denied, and the reason is
  "Free tier limit of 5 analyses exceeded. Please upgrade to Pro.", which does not contain
  "5/5". (The claim as stated has the reason contain "5/5"; that text is part of the reason
  given when the fifth request is admitted, at count = 4.) The subject has an id and the
  two reads succeed.
\<close>

theorem denial_reason_at_limit:
  assumes "truthy userId"
    and "\<not> get_fails s (status_path appId userId)"
    and "\<not> get_fails s (usage_path appId userId)"
    and "field (subscription_status s appId userId) ''tier'' = JStr ''free''"
    and "field (usage_counter s appId userId) ''count'' = JNum 5"
  shows "fst (checkSubscription appId userId s)
           = Inr \<lparr>canProceed = False,
                  message = ''Free tier limit of 5 analyses exceeded. Please upgrade to Pro.''\<rparr>
       \<and> \<not> includes_str ''Free tier limit of 5 analyses exceeded. Please upgrade to Pro.'' ''5/5''"
proof -
  have v: "document_path (status_path appId userId)"
    using assms(5) by (intro counted_usage_is_stored [of s appId userId 5]) simp_all
  have np: "\<not> pro_and_active (subscription_status s appId userId)"
    using assms(4) by (simp add: pro_and_active_def)
  have ge: "\<not> js_lt_num (field (usage_counter s appId userId) ''count'') FREE_TIER_LIMIT"
    using assms(5) by (simp add: lt_limit_int)
  have r: "fst (checkSubscription appId userId s)
      = Inr \<lparr>canProceed = False,
             message = ''Free tier limit of 5 analyses exceeded. Please upgrade to Pro.''\<rparr>"
    by (simp add: check_limit [OF assms(1) v assms(2,3) np ge] msg_limit_exceeded_text)
  show ?thesis
    by (simp add: r)
qed

theorem denial_reason_at_limit_witness:
  "field (subscription_status limit_store app u1) ''tier'' = JStr ''free''
   \<and> field (usage_counter limit_store app u1) ''count'' = JNum 5
   \<and> fst (checkSubscription app u1 limit_store)
       = Inr \<lparr>canProceed = False,
              message = ''Free tier limit of 5 analyses exceeded. Please upgrade to Pro.''\<rparr>"
proof -
  have h1: "truthy u1" by (simp add: u1_def)
  have h2: "\<not> get_fails limit_store (status_path app u1)"
    and h3: "\<not> get_fails limit_store (usage_path app u1)"
    by (simp_all add: get_fails_def limit_store_def store_with_def fresh_store_def)
  have d: "docs limit_store u1_status = Some [''tier'' \<mapsto> JStr ''free'', ''status'' \<mapsto> JStr ''unknown'']"
    "docs limit_store u1_usage = Some [''count'' \<mapsto> JNum 5]"
    by (simp_all add: docs_def u1_paths_valid limit_store_def store_with_def)
      (simp add: u1_status_def u1_usage_def)
  have h4: "field (subscription_status limit_store app u1) ''tier'' = JStr ''free''"
    by (simp add: subscription_status_def u1_paths d data_or_def field_def)
  have h5: "field (usage_counter limit_store app u1) ''count'' = JNum 5"
    by (simp add: usage_counter_def u1_paths d data_or_def field_def)
  note w = denial_reason_at_limit [OF h1 h2 h3 h4 h5]
  from h4 h5 w [THEN conjunct1] show ?thesis
    by (intro conjI)
qed

text \<open>
  The claim C4 as stated fails: at count = 5 and tier = free the request is denied, but
  the reason does not contain "5/5".
\<close>

theorem denial_reason_at_limit_counterexample:
  "fst (checkSubscription app u1 limit_store)
     = Inr \<lparr>canProceed = False, message = msg_limit_exceeded\<rparr>
   \<and> \<not> includes_str msg_limit_exceeded ''5/5''"
proof -
  have h1: "truthy u1" by (simp add: u1_def)
  have v: "document_path (status_path app u1)"
    by (simp add: u1_paths u1_paths_valid)
  have h2: "\<not> get_fails limit_store (status_path app u1)"
    and h3: "\<not> get_fails limit_store (usage_path app u1)"
    by (simp_all add: get_fails_def limit_store_def store_with_def fresh_store_def)
  have d: "docs limit_store u1_status = Some [''tier'' \<mapsto> JStr ''free'', ''status'' \<mapsto> JStr ''unknown'']"
    "docs limit_store u1_usage = Some [''count'' \<mapsto> JNum 5]"
    by (simp_all add: docs_def u1_paths_valid limit_store_def store_with_def)
      (simp add: u1_status_def u1_usage_def)
  have h4: "\<not> pro_and_active (subscription_status limit_store app u1)"
    by (simp add: subscription_status_def u1_paths d pro_and_active_def data_or_def field_def)
  have h5: "\<not> js_lt_num (field (usage_counter limit_store app u1) ''count'') FREE_TIER_LIMIT"
    by (simp add: usage_counter_def u1_paths d data_or_def field_def lt_limit_int)
  have "fst (checkSubscription app u1 limit_store)
      = Inr \<lparr>canProceed = False, message = msg_limit_exceeded\<rparr>"
    by (simp add: check_limit [OF h1 v h2 h3 h4 h5])
  moreover have "\<not> includes_str msg_limit_exceeded ''5/5''"
    by (simp add: msg_limit_exceeded_text)
  ultimately show ?thesis
    by (intro conjI)
qed

text \<open>
  C5. A read or a write of the store that fails during the call yields the denial
  "Internal server error during authorization check."; no fault ends in an admission.
  First for every run by its trace, then for the faults themselves: a failing read of
  either document, and a failing write of the counter on the free-tier branch (which
  leaves the documents as they were).
\<close>

theorem storage_fault_denied:
  assumes "checkSubscription appId userId s = (d, s')"
  shows "(list_ex is_failure (new_events s s') \<longrightarrow>
            d = Inr \<lparr>canProceed = False,
                     message = ''Internal server error during authorization check.''\<rparr>)
       \<and> (truthy userId
            \<and> (get_fails s (status_path appId userId) \<or> get_fails s (usage_path appId userId)) \<longrightarrow>
            d = Inr \<lparr>canProceed = False,
                     message = ''Internal server error during authorization check.''\<rparr>
            \<and> docs s' = docs s)
       \<and> (truthy userId
            \<and> \<not> get_fails s (status_path appId userId) \<and> \<not> get_fails s (usage_path appId userId)
            \<and> \<not> pro_and_active (subscription_status s appId userId)
            \<and> js_lt_num (field (usage_counter s appId userId) ''count'') FREE_TIER_LIMIT
            \<and> set_fails s (usage_path appId userId) \<longrightarrow>
            d = Inr \<lparr>canProceed = False,
                     message = ''Internal server error during authorization check.''\<rparr>
            \<and> docs s' = docs s)"
proof (intro conjI impI)
  assume "list_ex is_failure (new_events s s')"
  then have "list_ex is_failure (new_events s (snd (checkSubscription appId userId s)))"
    by (simp add: assms)
  from check_failure_event [OF this]
  show "d = Inr \<lparr>canProceed = False, message = ''Internal server error during authorization check.''\<rparr>"
    by (simp add: assms msg_internal_error_text)
next
  assume h: "truthy userId
      \<and> (get_fails s (status_path appId userId) \<or> get_fails s (usage_path appId userId))"
  then have u: "truthy userId"
    and f: "get_fails s (status_path appId userId) \<or> get_fails s (usage_path appId userId)"
    by simp_all
  from check_read_fault(1) [OF u f]
  show "d = Inr \<lparr>canProceed = False, message = ''Internal server error during authorization check.''\<rparr>"
    by (simp add: assms msg_internal_error_text)
  from check_read_fault(2) [OF u f] show "docs s' = docs s"
    by (simp add: assms)
next
  assume h: "truthy userId
      \<and> \<not> get_fails s (status_path appId userId) \<and> \<not> get_fails s (usage_path appId userId)
      \<and> \<not> pro_and_active (subscription_status s appId userId)
      \<and> js_lt_num (field (usage_counter s appId userId) ''count'') FREE_TIER_LIMIT
      \<and> set_fails s (usage_path appId userId)"
  then have r: "checkSubscription appId userId s =
           (Inr \<lparr>canProceed = False, message = msg_internal_error\<rparr>,
            s\<lparr>trace := trace s @ [GetOk (status_path appId userId), GetOk (usage_path appId userId),
                  SetFailed (usage_path appId userId)]\<rparr>)"
    by (intro check_write_fault) simp_all
  from r show "d = Inr \<lparr>canProceed = False, message = ''Internal server error during authorization check.''\<rparr>"
    using assms by (simp add: msg_internal_error_text)
  from r show "docs s' = docs s"
    using assms by auto
qed

theorem storage_fault_denied_witness:
  "get_fails read_fault_store (usage_path app u1)
   \<and> new_events read_fault_store (snd (checkSubscription app u1 read_fault_store))
       = [GetOk u1_status, GetFailed u1_usage]
   \<and> fst (checkSubscription app u1 read_fault_store)
       = Inr \<lparr>canProceed = False, message = ''Internal server error during authorization check.''\<rparr>
   \<and> set_fails write_fault_store (usage_path app u1)
   \<and> new_events write_fault_store (snd (checkSubscription app u1 write_fault_store))
       = [GetOk u1_status, GetOk u1_usage, SetFailed u1_usage]
   \<and> fst (checkSubscription app u1 write_fault_store)
       = Inr \<lparr>canProceed = False, message = ''Internal server error during authorization check.''\<rparr>
   \<and> docs (snd (checkSubscription app u1 write_fault_store)) = docs write_fault_store"
proof -
  have u: "truthy u1" by (simp add: u1_def)
  have ne: "u1_status \<noteq> u1_usage"
    by (simp add: u1_status_def u1_usage_def)
  have rf: "get_fails read_fault_store (usage_path app u1)"
    "\<not> get_fails read_fault_store (status_path app u1)"
    by (simp_all add: get_fails_def u1_paths u1_paths_valid read_fault_store_def ne)
  have dw: "docs write_fault_store u1_status = None" "docs write_fault_store u1_usage = None"
    by (simp_all add: docs_def write_fault_store_def fresh_store_def)
  have g: "\<not> get_fails write_fault_store (status_path app u1)"
    "\<not> get_fails write_fault_store (usage_path app u1)"
    by (simp_all add: get_fails_def write_fault_store_def fresh_store_def)
  have sf: "set_fails write_fault_store (usage_path app u1)"
    by (simp add: set_fails_def u1_paths u1_paths_valid write_fault_store_def)
  have np: "\<not> pro_and_active (subscription_status write_fault_store app u1)"
    by (simp add: subscription_status_def u1_paths dw pro_and_active_def data_or_def field_def
        default_status_def)
  have lt: "js_lt_num (field (usage_counter write_fault_store app u1) ''count'') FREE_TIER_LIMIT"
    by (simp add: usage_counter_def u1_paths dw data_or_def field_def default_usage_def
        lt_limit_int)
  from u g np lt sf have wf: "truthy u1
      \<and> \<not> get_fails write_fault_store (status_path app u1)
      \<and> \<not> get_fails write_fault_store (usage_path app u1)
      \<and> \<not> pro_and_active (subscription_status write_fault_store app u1)
      \<and> js_lt_num (field (usage_counter write_fault_store app u1) ''count'') FREE_TIER_LIMIT
      \<and> set_fails write_fault_store (usage_path app u1)"
    by (intro conjI)
  have er: "new_events read_fault_store (snd (checkSubscription app u1 read_fault_store))
      = [GetOk u1_status, GetFailed u1_usage]"
    using rf
    by (simp add: checkSubscription_def db_doc_def get_doc_def Let_def u u1_paths u1_paths_valid
        new_events_def)
  have ew: "new_events write_fault_store (snd (checkSubscription app u1 write_fault_store))
      = [GetOk u1_status, GetOk u1_usage, SetFailed u1_usage]"
    using wf by (subst check_write_fault) (simp_all add: u1_paths)
  have a: "fst (checkSubscription app u1 read_fault_store)
      = Inr \<lparr>canProceed = False, message = ''Internal server error during authorization check.''\<rparr>"
    using storage_fault_denied
      [where appId = app and userId = u1 and s = read_fault_store, OF surjective_pairing] er
    by simp
  have b: "fst (checkSubscription app u1 write_fault_store)
      = Inr \<lparr>canProceed = False, message = ''Internal server error during authorization check.''\<rparr>
    \<and> docs (snd (checkSubscription app u1 write_fault_store)) = docs write_fault_store"
    using storage_fault_denied
      [where appId = app and userId = u1 and s = write_fault_store, OF surjective_pairing] wf
    by blast
  from rf(1) wf er ew a b show ?thesis
    by blast
qed

text \<open>
  C10. When the usage document exists but has no count field, a subject that is not pro
  and active is denied with the limit-exceeded reason and nothing is written: the count
  reads as \<^verbatim>\<open>undefined\<close>, which is not below the limit; the default \<open>{count: 0}\<close>
  stands in only for a document that is absent. The subject has an id and the two reads
  succeed.
\<close>

theorem missing_count_field_denied:
  assumes "truthy userId"
    and "\<not> get_fails s (status_path appId userId)"
    and "\<not> get_fails s (usage_path appId userId)"
    and "\<not> pro_and_active (subscription_status s appId userId)"
    and "docs s (usage_path appId userId) = Some d"
    and "d ''count'' = None"
  shows "field (usage_counter s appId userId) ''count'' = JUndefined
       \<and> \<not> js_lt_num JUndefined FREE_TIER_LIMIT
       \<and> fst (checkSubscription appId userId s)
           = Inr \<lparr>canProceed = False,
                  message = ''Free tier limit of 5 analyses exceeded. Please upgrade to Pro.''\<rparr>
       \<and> docs (snd (checkSubscription appId userId s)) = docs s
       \<and> new_events s (snd (checkSubscription appId userId s))
           = [GetOk (status_path appId userId), GetOk (usage_path appId userId)]
       \<and> \<not> list_ex is_write (new_events s (snd (checkSubscription appId userId s)))"
proof -
  have "document_path (usage_path appId userId)"
    using assms(5) by (rule docs_document_path)
  then have v: "document_path (status_path appId userId)"
    by (simp add: usage_path_valid_iff)
  have c: "field (usage_counter s appId userId) ''count'' = JUndefined"
    using assms(5,6) by (simp add: usage_counter_def data_or_def field_def)
  have n: "\<not> js_lt_num JUndefined FREE_TIER_LIMIT"
    by (simp add: js_lt_num_def)
  have "\<not> js_lt_num (field (usage_counter s appId userId) ''count'') FREE_TIER_LIMIT"
    by (simp add: c n)
  from check_limit [OF assms(1) v assms(2-4) this] c n show ?thesis
    by (simp add: msg_limit_exceeded_text)
qed

theorem missing_count_field_denied_witness:
  "docs no_count_store u1_usage = Some [''last_use'' \<mapsto> JTimestamp 1690000000]
   \<and> fst (checkSubscription app u1 no_count_store)
       = Inr \<lparr>canProceed = False,
              message = ''Free tier limit of 5 analyses exceeded. Please upgrade to Pro.''\<rparr>
   \<and> docs (snd (checkSubscription app u1 no_count_store)) = docs no_count_store
   \<and> new_events no_count_store (snd (checkSubscription app u1 no_count_store))
       = [GetOk u1_status, GetOk u1_usage]
   \<and> \<not> list_ex is_write (new_events no_count_store (snd (checkSubscription app u1 no_count_store)))"
proof -
  have h1: "truthy u1" by (simp add: u1_def)
  have h2: "\<not> get_fails no_count_store (status_path app u1)"
    and h3: "\<not> get_fails no_count_store (usage_path app u1)"
    by (simp_all add: get_fails_def no_count_store_def store_with_def fresh_store_def)
  have d: "docs no_count_store u1_status = None"
    "docs no_count_store u1_usage = Some [''last_use'' \<mapsto> JTimestamp 1690000000]"
    by (simp_all add: docs_def u1_paths_valid no_count_store_def store_with_def fresh_store_def)
      (simp add: u1_status_def u1_usage_def)
  have h4: "\<not> pro_and_active (subscription_status no_count_store app u1)"
    by (simp add: subscription_status_def u1_paths d pro_and_active_def data_or_def field_def
        default_status_def)
  have h5: "docs no_count_store (usage_path app u1) = Some [''last_use'' \<mapsto> JTimestamp 1690000000]"
    by (simp add: u1_paths d)
  have h6: "[''last_use'' \<mapsto> JTimestamp 1690000000] ''count'' = None"
    by simp
  from missing_count_field_denied [OF h1 h2 h3 h4 h5 h6] d(2) show ?thesis
    by (simp add: u1_paths)
qed

section \<open>The two copies of the gate\<close>

text \<open>
  The default usage documents of the two copies differ in a field that is never read, so
  for a subject id that is truthy the two copies are the same function of the store.
\<close>

lemma default_usage_count_same:
  "field (data_or snap default_usage_gcf) ''count'' = field (data_or snap default_usage) ''count''"
  by (simp add: data_or_def default_usage_gcf_def default_usage_def field_def split: option.splits)

lemma gate_copies_agree_on_present_id:
  assumes "truthy userId"
  shows "checkSubscription_gcf appId userId s = checkSubscription appId userId s"
  using assms
  by (auto simp: checkSubscription_gcf_def checkSubscription_def Let_def default_usage_count_same
      split: prod.splits sum.splits)

text \<open>
  C9. The two copies are not the same function: the copy in the cloud function has no
  check of the subject id. With no id (\<^verbatim>\<open>undefined\<close>) and an empty store, the Express
  copy denies with "User ID is required for authorization." and touches nothing; the
  cloud-function copy reads the documents of a subject named \<^verbatim>\<open>undefined\<close>, admits
  with "Free tier usage: 1/5 analyses used." and writes count = 1.
\<close>

theorem gate_copies_differ_without_id:
  "checkSubscription app JUndefined fresh_store
     = (Inr \<lparr>canProceed = False, message = ''User ID is required for authorization.''\<rparr>, fresh_store)
   \<and> fst (checkSubscription_gcf app JUndefined fresh_store)
       = Inr \<lparr>canProceed = True, message = ''Free tier usage: 1/5 analyses used.''\<rparr>
   \<and> new_events fresh_store (snd (checkSubscription_gcf app JUndefined fresh_store))
       = [GetOk ''/artifacts/default-app-id/users/undefined/subscriptions/status'',
          GetOk ''/artifacts/default-app-id/users/undefined/usage/analysis_count'',
          SetOk ''/artifacts/default-app-id/users/undefined/usage/analysis_count''
            [(''count'', JNum 1), (''last_use'', JTimestamp 1700000000)]]
   \<and> docs (snd (checkSubscription_gcf app JUndefined fresh_store))
         ''/artifacts/default-app-id/users/undefined/usage/analysis_count''
       = Some [''count'' \<mapsto> JNum 1, ''last_use'' \<mapsto> JTimestamp 1700000000]"
proof -
  have a: "checkSubscription app JUndefined fresh_store
     = (Inr \<lparr>canProceed = False, message = ''User ID is required for authorization.''\<rparr>, fresh_store)"
    by (simp add: checkSubscription_def msg_user_id_required_def)
  have p: "status_path app JUndefined = ''/artifacts/default-app-id/users/undefined/subscriptions/status''"
    "usage_path app JUndefined = ''/artifacts/default-app-id/users/undefined/usage/analysis_count''"
    by (simp_all add: status_path_def usage_path_def app_def)
  have f: "docs fresh_store = Map.empty" "get_fails fresh_store = (\<lambda>p. False)"
    "set_fails fresh_store = (\<lambda>p. False)" "trace fresh_store = []"
    "server_time fresh_store = 1700000000" "stored fresh_store = Map.empty"
    by (auto simp: docs_def get_fails_def set_fails_def fresh_store_def)
  have one: "msg_free_usage (JNum 1) = ''Free tier usage: 1/5 analyses used.''"
    by (simp add: msg_free_usage_text show_int_def show_nat.simps digit_char_def)
  have b: "checkSubscription_gcf app JUndefined fresh_store
     = (Inr \<lparr>canProceed = True, message = ''Free tier usage: 1/5 analyses used.''\<rparr>,
        fresh_store\<lparr>stored := [''/artifacts/default-app-id/users/undefined/usage/analysis_count''
                 \<mapsto> [''count'' \<mapsto> JNum 1, ''last_use'' \<mapsto> JTimestamp 1700000000]],
           trace := [GetOk ''/artifacts/default-app-id/users/undefined/subscriptions/status'',
              GetOk ''/artifacts/default-app-id/users/undefined/usage/analysis_count'',
              SetOk ''/artifacts/default-app-id/users/undefined/usage/analysis_count''
                [(''count'', JNum 1), (''last_use'', JTimestamp 1700000000)]]\<rparr>)"
    by (simp add: checkSubscription_gcf_def db_doc_def p undefined_paths_valid get_doc_def
        merge_set_def Let_def f data_or_def default_status_def default_usage_gcf_def field_def
        lt_limit_int round_double_int_small one)
  show ?thesis
    by (simp add: a b new_events_def f docs_def undefined_paths_valid)
qed

section \<open>The claims about the webhook handler\<close>





lemma hook_invalid_path:
  assumes "req_method req = ''POST''"
    and "get_prop (body req) ''event_type'' = Some eventType"
    and "truthy eventType"
    and "userId = extract_user_id (read_prop (body req) ''resource'')"
    and "truthy userId"
    and "\<not> document_path (status_path appId userId)"
  shows "paypalWebhookHandler appId req s = (NoResponse, s)"
  using assms
  by (simp add: paypalWebhookHandler_def Let_def db_doc_def webhook_path_is_status_path)



text \<open>A subject id with a slash in it makes an invalid path: no response, nothing written.\<close>

lemma slash_custom_id_throws:
  "paypalWebhookHandler ''default-app-id''
     \<lparr>req_method = ''POST'', authorization = None,
      body = JObj [(''event_type'', JStr ''BILLING.SUBSCRIPTION.ACTIVATED''),
                   (''resource'', JObj [(''id'', JStr ''P1''), (''custom_id'', JStr ''a/b'')])]\<rparr> s
   = (NoResponse, s)"
  by (simp add: paypalWebhookHandler_def Let_def extract_user_id_def read_prop_def db_doc_def
      webhook_status_path_def document_path_def path_components_def)






section \<open>The claim about the orchestrator\<close>

text \<open>The ways the AI call fails: no key, a failed request, no text, or text that does not parse.\<close>

lemma oracle_failure_cases:
  "(\<exists>e. runGeminiAnalysis env a = Inl e) \<longleftrightarrow>
     (\<not> truthy (GEMINI_API_KEY env)
      \<or> generateContent env a = AiFailed
      \<or> (\<exists>t. generateContent env a = AiText t
              \<and> (\<not> truthy t \<or> json_parse env (to_str t) = None)))"
  by (auto simp: runGeminiAnalysis_def split: ai_reply.splits option.splits)

lemma run_after_admission:
  assumes "get_prop (body req) ''data'' = Some analysisData"
    and "truthy analysisData"
    and "authorization req = Some header"
    and "bearer_token header = JStr token"
    and "token \<noteq> []"
    and "verifyIdToken token = Some userId"
    and "checkSubscription appId userId s = (Inr d, s')"
    and "canProceed d"
    and "runGeminiAnalysis env analysisData = Inl e"
  shows "runAnalysis appId verifyIdToken env req s =
           (Sent 500 (JObj [(''error'', JStr ''Failed to generate AI analysis.'')]), s')"
proof -
  have h: "header \<noteq> []"
    using assms(4) by (auto simp: bearer_token_def)
  show ?thesis
    using assms h
    by (simp add: runAnalysis_def Let_def err_body_def)
qed

lemma run_after_throw:
  assumes "get_prop (body req) ''data'' = Some analysisData"
    and "truthy analysisData"
    and "authorization req = Some header"
    and "bearer_token header = JStr token"
    and "token \<noteq> []"
    and "verifyIdToken token = Some userId"
    and "truthy userId"
    and "\<not> document_path (status_path appId userId)"
  shows "runAnalysis appId verifyIdToken env req s = (NoResponse, s)"
proof -
  have h: "header \<noteq> []"
    using assms(4) by (auto simp: bearer_token_def)
  show ?thesis
    using assms h
    by (simp add: runAnalysis_def Let_def check_invalid_path)
qed

text \<open>
  C8. A request with a payload and a bearer token that verifies to a subject, admitted on
  the free tier (not pro and active, count \<open>c\<close> in 0..4, store operations succeeding),
  whose AI call then fails, is answered with 500 and "Failed to generate AI analysis.".
  The store the handler leaves is the one the gate left: the counter holds \<open>c + 1\<close>, and
  the operations of the whole request are the two reads and the one write of the gate,
  with nothing after them. The subject id makes its two paths document paths (otherwise
  \<^verbatim>\<open>db.doc\<close> throws, and the request ends with no response and no write).
\<close>

theorem oracle_failure_keeps_increment:
  assumes "get_prop (body req) ''data'' = Some analysisData"
    and "truthy analysisData"
    and "authorization req = Some header"
    and "bearer_token header = JStr token"
    and "token \<noteq> []"
    and "verifyIdToken token = Some userId"
    and "truthy userId"
    and "document_path (status_path appId userId)"
    and "document_path (usage_path appId userId)"
    and "\<not> get_fails s (status_path appId userId)"
    and "\<not> get_fails s (usage_path appId userId)"
    and "\<not> set_fails s (usage_path appId userId)"
    and "\<not> pro_and_active (subscription_status s appId userId)"
    and "field (usage_counter s appId userId) ''count'' = JNum c"
    and "0 \<le> c"
    and "c < 5"
    and "runGeminiAnalysis env analysisData = Inl e"
  shows "fst (checkSubscription appId userId s)
           = Inr \<lparr>canProceed = True,
                  message = ''Free tier usage: '' @ show_int (c + 1) @ ''/5 analyses used.''\<rparr>
       \<and> runAnalysis appId verifyIdToken env req s =
           (Sent 500 (JObj [(''error'', JStr ''Failed to generate AI analysis.'')]),
            snd (checkSubscription appId userId s))
       \<and> stored_field (snd (runAnalysis appId verifyIdToken env req s))
             (usage_path appId userId) ''count'' = JNum (c + 1)
       \<and> new_events s (snd (runAnalysis appId verifyIdToken env req s))
           = [GetOk (status_path appId userId), GetOk (usage_path appId userId),
              SetOk (usage_path appId userId)
                [(''count'', JNum (c + 1)), (''last_use'', JTimestamp (server_time s))]]"
proof -
  note g = check_free [OF assms(7,8,10-14) assms(15,16)]
  have small: "\<bar>c + 1\<bar> < 2 ^ 53"
    using assms(15,16) by simp
  have adm: "fst (checkSubscription appId userId s)
           = Inr \<lparr>canProceed = True,
                  message = ''Free tier usage: '' @ show_int (c + 1) @ ''/5 analyses used.''\<rparr>"
    by (simp add: g msg_free_usage_text [OF small])
  have r: "runAnalysis appId verifyIdToken env req s =
           (Sent 500 (JObj [(''error'', JStr ''Failed to generate AI analysis.'')]),
            snd (checkSubscription appId userId s))"
    by (rule run_after_admission [where verifyIdToken = verifyIdToken and d = "\<lparr>canProceed = True,
         message = msg_free_usage (JNum (c + 1))\<rparr>", OF assms(1-6) _ _ assms(17)])
      (simp_all add: g)
  have cnt: "stored_field (snd (runAnalysis appId verifyIdToken env req s))
             (usage_path appId userId) ''count'' = JNum (c + 1)"
    by (simp add: r g stored_field_def docs_after_write [OF assms(9)] data_or_def field_def)
  have ev: "new_events s (snd (runAnalysis appId verifyIdToken env req s))
           = [GetOk (status_path appId userId), GetOk (usage_path appId userId),
              SetOk (usage_path appId userId)
                [(''count'', JNum (c + 1)), (''last_use'', JTimestamp (server_time s))]]"
    by (simp add: r g)
  from adm r cnt ev show ?thesis
    by blast
qed

theorem oracle_failure_keeps_increment_witness:
  "document_path (status_path app u1) \<and> document_path (usage_path app u1)
   \<and> field (usage_counter free3_store app u1) ''count'' = JNum 3
   \<and> runGeminiAnalysis failing_ai (JObj [(''electricity_kwh'', JNum 1200)]) = Inl msg_ai_unprocessed
   \<and> fst (runAnalysis app verify_tok1 failing_ai analysis_request free3_store)
       = Sent 500 (JObj [(''error'', JStr ''Failed to generate AI analysis.'')])
   \<and> stored_field (snd (runAnalysis app verify_tok1 failing_ai analysis_request free3_store))
         u1_usage ''count'' = JNum 4
   \<and> new_events free3_store (snd (runAnalysis app verify_tok1 failing_ai analysis_request free3_store))
       = [GetOk u1_status, GetOk u1_usage,
          SetOk u1_usage [(''count'', JNum 4), (''last_use'', JTimestamp 1700000000)]]"
proof -
  have v: "document_path (status_path app u1)" "document_path (usage_path app u1)"
    by (simp_all add: u1_paths u1_paths_valid)
  have h1: "get_prop (body analysis_request) ''data'' = Some (JObj [(''electricity_kwh'', JNum 1200)])"
    and h2: "truthy (JObj [(''electricity_kwh'', JNum 1200)])"
    and h3: "authorization analysis_request = Some ''Bearer tok1''"
    by (simp_all add: analysis_request_def)
  have h4: "bearer_token ''Bearer tok1'' = JStr ''tok1''"
    by (simp add: bearer_token_def)
  have h5: "''tok1'' \<noteq> []" by simp
  have h6: "verify_tok1 ''tok1'' = Some u1"
    by (simp add: verify_tok1_def u1_def)
  have h7: "truthy u1" by (simp add: u1_def)
  have h8: "\<not> get_fails free3_store (status_path app u1)"
    and h9: "\<not> get_fails free3_store (usage_path app u1)"
    and h10: "\<not> set_fails free3_store (usage_path app u1)"
    by (simp_all add: get_fails_def set_fails_def free3_store_def store_with_def fresh_store_def)
  have d3: "docs free3_store u1_status = None"
    "docs free3_store u1_usage = Some [''count'' \<mapsto> JNum 3, ''last_use'' \<mapsto> JTimestamp 1690000000]"
    by (simp_all add: docs_def u1_paths_valid free3_store_def store_with_def fresh_store_def)
      (simp_all add: u1_status_def u1_usage_def)
  have h11: "\<not> pro_and_active (subscription_status free3_store app u1)"
    and h12: "field (usage_counter free3_store app u1) ''count'' = JNum 3"
    by (simp_all add: subscription_status_def usage_counter_def u1_paths d3 pro_and_active_def
        data_or_def field_def default_status_def)
  have h13: "(0::int) \<le> 3" and h14: "(3::int) < 5" by simp_all
  have h15: "runGeminiAnalysis failing_ai (JObj [(''electricity_kwh'', JNum 1200)]) = Inl msg_ai_unprocessed"
    by (simp add: runGeminiAnalysis_def failing_ai_def)
  have t: "server_time free3_store = 1700000000"
    by (simp add: free3_store_def store_with_def fresh_store_def)
  note w = oracle_failure_keeps_increment
    [where verifyIdToken = verify_tok1,
      OF h1 h2 h3 h4 h5 h6 h7 v h8 h9 h10 h11 h12 h13 h14 h15, unfolded u1_paths t]
  from w [THEN conjunct2, THEN conjunct1]
  have r: "fst (runAnalysis app verify_tok1 failing_ai analysis_request free3_store)
       = Sent 500 (JObj [(''error'', JStr ''Failed to generate AI analysis.'')])"
    by simp
  from w [THEN conjunct2, THEN conjunct2, THEN conjunct1]
  have c: "stored_field (snd (runAnalysis app verify_tok1 failing_ai analysis_request free3_store))
         u1_usage ''count'' = JNum 4"
    by simp
  from w [THEN conjunct2, THEN conjunct2, THEN conjunct2]
  have e: "new_events free3_store (snd (runAnalysis app verify_tok1 failing_ai analysis_request free3_store))
       = [GetOk u1_status, GetOk u1_usage,
          SetOk u1_usage [(''count'', JNum 4), (''last_use'', JTimestamp 1700000000)]]"
    by simp
  from v h12 h15 r c e show ?thesis
    by (intro conjI)
qed

end
